theory Spec2Isabelle
  imports Main "HOL-Library.Word"
begin

unbundle bit_operations_syntax

section \<open>Go values used by the decoder\<close>

text \<open>
  The byte source (\<^verbatim>\<open>io.ReaderAt\<close>) is an immutable sequence of bytes. A Go
  \<^verbatim>\<open>string\<close> is a byte sequence too, so resolved names are kept as the bytes they
  are made of. The errors package \<^verbatim>\<open>coff\<close> can return are its own
  \<^verbatim>\<open>ErrInvalidTargetID\<close> and the two end-of-input errors of package \<^verbatim>\<open>io\<close>.
  A run-time panic (a slice expression out of range) is an outcome of its own: the
  function does not return. Reading the byte source fails only where the bytes end, and
  allocation never fails.
\<close>

type_synonym byte = "8 word"

datatype error = ErrInvalidTargetID | EOF | ErrUnexpectedEOF

datatype 'a outcome = Returned 'a | Panic

subsection \<open>\<^verbatim>\<open>io.ReadFull\<close> on the section reader\<close>

text \<open>
  \<^verbatim>\<open>sr = io.NewSectionReader(r, 0, 1<<63-1)\<close> reads \<open>r\<close> from its current position.
  \<^verbatim>\<open>io.ReadFull(sr, buf)\<close> succeeds when \<open>len(buf)\<close> bytes are left, returns
  \<^verbatim>\<open>io.EOF\<close> when none is left and \<^verbatim>\<open>io.ErrUnexpectedEOF\<close> when some but too few are.
  After a successful read of \<open>n\<close> bytes the reader stands at \<open>pos + n\<close>.
\<close>

definition ReadFull :: "byte list \<Rightarrow> nat \<Rightarrow> nat \<Rightarrow> error + byte list" where
  "ReadFull r pos n =
     (let avail = drop pos r in
      if n \<le> length avail then Inr (take n avail)
      else if avail = [] then Inl EOF
      else Inl ErrUnexpectedEOF)"

subsection \<open>\<^verbatim>\<open>encoding/binary\<close>: fixed-size structs, little-endian\<close>

text \<open>
  \<^verbatim>\<open>binary.Read\<close> walks the fields of a struct in declaration order; a blank field
  (\<^verbatim>\<open>_\<close>) is read and skipped. A struct is described by the kinds of its fields.
\<close>

datatype kind = Uint8 | Uint16 | Int16 | Uint32 | Blank nat

fun sizeof :: "kind \<Rightarrow> nat" where
  "sizeof Uint8 = 1"
| "sizeof Uint16 = 2"
| "sizeof Int16 = 2"
| "sizeof Uint32 = 4"
| "sizeof (Blank n) = n"

definition binary_Size :: "kind list \<Rightarrow> nat" where
  "binary_Size fields = sum_list (map sizeof fields)"

fun LittleEndian :: "byte list \<Rightarrow> nat" where
  "LittleEndian [] = 0"
| "LittleEndian (b # bs) = unat b + 256 * LittleEndian bs"

fun decode :: "kind list \<Rightarrow> byte list \<Rightarrow> nat list" where
  "decode [] buf = []"
| "decode (Blank n # fields) buf = decode fields (drop n buf)"
| "decode (k # fields) buf =
     LittleEndian (take (sizeof k) buf) # decode fields (drop (sizeof k) buf)"

definition binary_Read :: "byte list \<Rightarrow> nat \<Rightarrow> kind list \<Rightarrow> error + nat list" where
  "binary_Read r pos fields =
     (case ReadFull r pos (binary_Size fields) of
        Inl err \<Rightarrow> Inl err
      | Inr buf \<Rightarrow> Inr (decode fields buf))"

section \<open>Package coff: the data model\<close>

record FileHeader =
  Version :: "16 word"
  NumSections :: "16 word"
  Timestamp :: "32 word"
  SymbolTableStartAddress :: "32 word"
  NumSymbolTableEntries :: "32 word"
  OptionalFileHeaderSize :: "16 word"
  Flags :: "16 word"
  TargetID :: "16 word"

definition FileHeader_layout :: "kind list" where
  "FileHeader_layout = [Uint16, Uint16, Uint32, Uint32, Uint32, Uint16, Uint16, Uint16]"

definition FileHeader_of :: "nat list \<Rightarrow> FileHeader" where
  "FileHeader_of vs =
     \<lparr>Version = of_nat (vs ! 0), NumSections = of_nat (vs ! 1), Timestamp = of_nat (vs ! 2),
      SymbolTableStartAddress = of_nat (vs ! 3), NumSymbolTableEntries = of_nat (vs ! 4),
      OptionalFileHeaderSize = of_nat (vs ! 5), Flags = of_nat (vs ! 6),
      TargetID = of_nat (vs ! 7)\<rparr>"

definition new_FileHeader :: FileHeader where
  "new_FileHeader =
     \<lparr>Version = 0, NumSections = 0, Timestamp = 0, SymbolTableStartAddress = 0,
      NumSymbolTableEntries = 0, OptionalFileHeaderSize = 0, Flags = 0, TargetID = 0\<rparr>"

text \<open>The table \<^verbatim>\<open>targetIDMap\<close>, device family names as in the source.\<close>

definition targetIDMap :: "16 word \<rightharpoonup> string" where
  "targetIDMap =
     map_of [(0x0097, ''TMS470''), (0x0098, ''TMS320C5400''), (0x0099, ''TMS320C6000''),
             (0x009C, ''TMS320C5500''), (0x009D, ''TMS320C2800''), (0x00A0, ''MSP430''),
             (0x00A1, ''TMS320C5500+'')]"

definition IsValidTargetID :: "FileHeader \<Rightarrow> bool" where
  "IsValidTargetID header = (targetIDMap (TargetID header) \<noteq> None)"

record OptionalFileHeader =
  MagicNumber :: "16 word"
  opt_Version :: "16 word"
  ExecuteableCodeSize :: "32 word"
  InitializedDataSize :: "32 word"
  UninitializedDataSize :: "32 word"
  EntryPoint :: "32 word"
  BeginAddressExecutableCode :: "32 word"
  BeginAddressInitializedData :: "32 word"

definition OptionalFileHeader_layout :: "kind list" where
  "OptionalFileHeader_layout =
     [Uint16, Uint16, Uint32, Uint32, Uint32, Uint32, Uint32, Uint32]"

definition OptionalFileHeader_of :: "nat list \<Rightarrow> OptionalFileHeader" where
  "OptionalFileHeader_of vs =
     \<lparr>MagicNumber = of_nat (vs ! 0), opt_Version = of_nat (vs ! 1),
      ExecuteableCodeSize = of_nat (vs ! 2), InitializedDataSize = of_nat (vs ! 3),
      UninitializedDataSize = of_nat (vs ! 4), EntryPoint = of_nat (vs ! 5),
      BeginAddressExecutableCode = of_nat (vs ! 6),
      BeginAddressInitializedData = of_nat (vs ! 7)\<rparr>"

definition new_OptionalFileHeader :: OptionalFileHeader where
  "new_OptionalFileHeader =
     \<lparr>MagicNumber = 0, opt_Version = 0, ExecuteableCodeSize = 0, InitializedDataSize = 0,
      UninitializedDataSize = 0, EntryPoint = 0, BeginAddressExecutableCode = 0,
      BeginAddressInitializedData = 0\<rparr>"

text \<open>
  The unexported \<^verbatim>\<open>sectionHeader\<close> is what is read from the file (three blank fields);
  \<^verbatim>\<open>SectionHeader\<close> is what the decoder keeps, with the resolved name. The section's
  own reader \<^verbatim>\<open>sr\<close> is the window \<open>(RawDataAddress, Size)\<close> of the byte source.
\<close>

definition sectionHeader_layout :: "kind list" where
  "sectionHeader_layout =
     [Uint32, Uint32, Uint32, Uint32, Uint32, Blank 4, Uint32, Blank 4, Uint32, Blank 2, Uint16]"

record Section =
  Name :: "byte list"
  PhysicalAddress :: "32 word"
  VirtualAddress :: "32 word"
  Size :: "32 word"
  RawDataAddress :: "32 word"
  RelocationEntriesAddress :: "32 word"
  NumRelocationEntries :: "32 word"
  sec_Flags :: "32 word"
  MemoryPageNumber :: "16 word"
  sr :: "nat \<times> nat"

definition Section_of :: "byte list \<Rightarrow> nat list \<Rightarrow> Section" where
  "Section_of name vs =
     \<lparr>Name = name, PhysicalAddress = of_nat (vs ! 0), VirtualAddress = of_nat (vs ! 1),
      Size = of_nat (vs ! 2), RawDataAddress = of_nat (vs ! 3),
      RelocationEntriesAddress = of_nat (vs ! 4), NumRelocationEntries = of_nat (vs ! 5),
      sec_Flags = of_nat (vs ! 6), MemoryPageNumber = of_nat (vs ! 7),
      sr = (unat (of_nat (vs ! 3) :: 32 word), unat (of_nat (vs ! 2) :: 32 word))\<rparr>"

record AuxiliaryEntry =
  aux_Size :: "32 word"
  aux_NumRelocationEntries :: "16 word"
  NumOfLineNumberEntries :: "16 word"

definition AuxiliaryEntry_layout :: "kind list" where
  "AuxiliaryEntry_layout = [Uint32, Uint16, Uint16, Blank 10]"

definition AuxiliaryEntry_of :: "nat list \<Rightarrow> AuxiliaryEntry" where
  "AuxiliaryEntry_of vs =
     \<lparr>aux_Size = of_nat (vs ! 0), aux_NumRelocationEntries = of_nat (vs ! 1),
      NumOfLineNumberEntries = of_nat (vs ! 2)\<rparr>"

text \<open>
  The unexported \<^verbatim>\<open>symbol\<close> is the ten-byte body read after the name field:
  value, section number, a blank \<^verbatim>\<open>uint16\<close>, storage class, auxiliary count.
\<close>

definition symbol_layout :: "kind list" where
  "symbol_layout = [Uint32, Int16, Blank 2, Uint8, Uint8]"

record Symbol =
  sym_Name :: "byte list"
  Value :: "32 word"
  SectionNumber :: "16 word"
  StorageClass :: "8 word"
  NumAuxEntries :: "8 word"
  AuxiliaryEntry :: "AuxiliaryEntry option"

definition Symbol_of :: "byte list \<Rightarrow> nat list \<Rightarrow> AuxiliaryEntry option \<Rightarrow> Symbol" where
  "Symbol_of name vs auxEntry =
     \<lparr>sym_Name = name, Value = of_nat (vs ! 0), SectionNumber = of_nat (vs ! 1),
      StorageClass = of_nat (vs ! 2), NumAuxEntries = of_nat (vs ! 3),
      AuxiliaryEntry = auxEntry\<rparr>"

record File =
  FileHeader :: FileHeader
  OptionalFileHeader :: "OptionalFileHeader option"
  Sections :: "Section option list"
  symbols :: "Symbol list"

definition new_File :: File where
  "new_File =
     \<lparr>FileHeader = new_FileHeader, OptionalFileHeader = None, Sections = [], symbols = []\<rparr>"

section \<open>Name resolution: \<^verbatim>\<open>getString\<close>\<close>

text \<open>
  \<^verbatim>\<open>bufio.Reader.ReadBytes(delim)\<close> over an in-memory reader: the bytes up to and
  including the first \<open>delim\<close>; without one, all the bytes and \<^verbatim>\<open>io.EOF\<close>.
\<close>

fun ReadBytes :: "byte list \<Rightarrow> byte \<Rightarrow> byte list \<times> error option" where
  "ReadBytes [] delim = ([], Some EOF)"
| "ReadBytes (b # bs) delim =
     (if b = delim then ([b], None)
      else (case ReadBytes bs delim of (line, err) \<Rightarrow> (b # line, err)))"

text \<open>\<^verbatim>\<open>strings.TrimRight\<close> for a cutset of ASCII bytes.\<close>

definition TrimRight :: "byte list \<Rightarrow> byte list \<Rightarrow> byte list" where
  "TrimRight s cutset = rev (dropWhile (\<lambda>c. c \<in> set cutset) (rev s))"

text \<open>
  \<open>name\<close> is the \<^verbatim>\<open>[8]byte\<close> field. The slice expression
  \<^verbatim>\<open>stringTable[offset:]\<close> panics when \<open>offset > len(stringTable)\<close>.
\<close>

definition getString :: "byte list \<Rightarrow> byte list \<Rightarrow> (error + byte list) outcome" where
  "getString stringTable name =
     (if name ! 0 = 0 \<and> name ! 1 = 0 \<and> name ! 2 = 0 \<and> name ! 3 = 0 then
        let offset :: 32 word =
              push_bit 24 (ucast (name ! 7)) OR push_bit 16 (ucast (name ! 6)) OR
              push_bit 8 (ucast (name ! 5)) OR push_bit 0 (ucast (name ! 4))
        in if length stringTable < unat offset then Panic
           else (case ReadBytes (drop (unat offset) stringTable) 0 of
                   (bs, Some err) \<Rightarrow> Returned (Inl err)
                 | (bs, None) \<Rightarrow> Returned (Inr (take (length bs - 1) bs)))
      else Returned (Inr (TrimRight name [0])))"

section \<open>The decoder: \<^verbatim>\<open>coff.NewFile\<close>\<close>

text \<open>
  The loop over the section headers (\<^verbatim>\<open>for i := 0; i < len(file.Sections); i++\<close>).
  \<open>secs\<close> is \<^verbatim>\<open>file.Sections\<close>, made with \<open>NumSections\<close> nil entries; \<open>offset\<close> is the
  variable of that name, where the reader stands at the start of each iteration.
\<close>

function read_sections ::
  "byte list \<Rightarrow> byte list \<Rightarrow> nat \<Rightarrow> nat \<Rightarrow> Section option list
     \<Rightarrow> (Section option list \<times> error option) outcome" where
  "read_sections r stringTable offset i secs =
     (if i < length secs then
        (case ReadFull r offset 8 of
           Inl err \<Rightarrow> Returned (secs, Some err)
         | Inr chars \<Rightarrow>
           (case binary_Read r (offset + 8) sectionHeader_layout of
              Inl err \<Rightarrow> Returned (secs, Some err)
            | Inr header \<Rightarrow>
              (case getString stringTable chars of
                 Panic \<Rightarrow> Panic
               | Returned (Inl err) \<Rightarrow> Returned (secs, Some err)
               | Returned (Inr name) \<Rightarrow>
                   read_sections r stringTable
                     (offset + 8 + binary_Size sectionHeader_layout) (i + 1)
                     (secs[i := Some (Section_of name header)]))))
      else Returned (secs, None))"
  by pat_completeness auto
termination
  by (relation "measure (\<lambda>(r, stringTable, offset, i, secs). length secs - i)") auto

text \<open>
  The loop over the symbol table
  (\<^verbatim>\<open>for i := file.NumSymbolTableEntries; i > 0; i--\<close>). The counter \<open>i\<close> is a
  \<^verbatim>\<open>uint32\<close>: the \<^verbatim>\<open>i--\<close> in the body and the one of the loop header both wrap.
  \<open>pos\<close> is where the reader stands; \<open>syms\<close> is \<^verbatim>\<open>file.symbols\<close>; \<open>symb\<close> holds the
  decoded fields of the local \<^verbatim>\<open>sym\<close>.
\<close>

function read_symbols ::
  "byte list \<Rightarrow> byte list \<Rightarrow> nat \<Rightarrow> 32 word \<Rightarrow> Symbol list
     \<Rightarrow> (Symbol list \<times> error option) outcome" where
  "read_symbols r stringTable pos i syms =
     (if 0 < i then
        (case ReadFull r pos 8 of
           Inl err \<Rightarrow> Returned (syms, Some err)
         | Inr chars \<Rightarrow>
           (case binary_Read r (pos + 8) symbol_layout of
              Inl err \<Rightarrow> Returned (syms, Some err)
            | Inr symb \<Rightarrow>
              (case getString stringTable chars of
                 Panic \<Rightarrow> Panic
               | Returned (Inl err) \<Rightarrow> Returned (syms, Some err)
               | Returned (Inr name) \<Rightarrow>
                   if (of_nat (symb ! 3) :: 8 word) = 1 then
                     (case binary_Read r (pos + 8 + binary_Size symbol_layout)
                             AuxiliaryEntry_layout of
                        Inl err \<Rightarrow> Returned (syms, Some err)
                      | Inr aux \<Rightarrow>
                          read_symbols r stringTable
                            (pos + 8 + binary_Size symbol_layout
                               + binary_Size AuxiliaryEntry_layout)
                            (i - 1 - 1)
                            (syms @ [Symbol_of name symb (Some (AuxiliaryEntry_of aux))]))
                   else
                     read_symbols r stringTable (pos + 8 + binary_Size symbol_layout)
                       (i - 1) (syms @ [Symbol_of name symb None]))))
      else Returned (syms, None))"
  by pat_completeness auto
termination
proof (relation "measure (\<lambda>(r, stringTable, pos, i, syms). length r - pos)")
  show "wf (measure (\<lambda>(r, stringTable, pos, i, syms). length r - pos))"
    by simp
next
  fix r :: "byte list" and stringTable :: "byte list" and pos :: nat and i :: "32 word"
    and syms :: "Symbol list" and chars symb
  assume "ReadFull r pos 8 = Inr chars"
  then have "pos + 8 \<le> length r"
    by (auto simp: ReadFull_def Let_def split: if_splits)
  then show "((r, stringTable,
        pos + 8 + binary_Size symbol_layout + binary_Size AuxiliaryEntry_layout,
        i - 1 - 1, syms @ [Symbol_of x symb (Some (AuxiliaryEntry_of y))]),
       r, stringTable, pos, i, syms)
      \<in> measure (\<lambda>(r, stringTable, pos, i, syms). length r - pos)" for x y
    by (simp add: binary_Size_def symbol_layout_def AuxiliaryEntry_layout_def)
  from \<open>pos + 8 \<le> length r\<close>
  show "((r, stringTable, pos + 8 + binary_Size symbol_layout, i - 1,
        syms @ [Symbol_of x symb None]), r, stringTable, pos, i, syms)
      \<in> measure (\<lambda>(r, stringTable, pos, i, syms). length r - pos)" for x
    by (simp add: binary_Size_def symbol_layout_def)
qed

text \<open>
  \<^verbatim>\<open>NewFile\<close> returns the pair \<open>(file, err)\<close> of its named results: \<open>None\<close> is the
  nil pointer and the nil error. Every bare \<^verbatim>\<open>return\<close> hands back the file built so
  far. After the header (and the optional header) the reader stands at \<open>offset\<close>.
  \<^verbatim>\<open>ioutil.ReadAll\<close> after the seek yields what the byte source holds from there on.
\<close>

definition NewFile :: "byte list \<Rightarrow> (File option \<times> error option) outcome" where
  "NewFile r =
     (let file = new_File in
      (case binary_Read r 0 FileHeader_layout of
         Inl err \<Rightarrow> Returned (Some file, Some err)
       | Inr vs \<Rightarrow>
         (let file = file\<lparr>FileHeader := FileHeader_of vs\<rparr> in
          if \<not> IsValidTargetID (FileHeader file) then Returned (None, Some ErrInvalidTargetID)
          else
            (let offset = binary_Size FileHeader_layout in
             (case (if 0 < OptionalFileHeaderSize (FileHeader file) then
                      (case binary_Read r offset OptionalFileHeader_layout of
                         Inl err \<Rightarrow>
                           (file\<lparr>OptionalFileHeader := Some new_OptionalFileHeader\<rparr>,
                            offset, Some err)
                       | Inr ws \<Rightarrow>
                           (file\<lparr>OptionalFileHeader := Some (OptionalFileHeader_of ws)\<rparr>,
                            offset + binary_Size OptionalFileHeader_layout, None))
                    else (file, offset, None)) of
                (file, offset, Some err) \<Rightarrow> Returned (Some file, Some err)
              | (file, offset, None) \<Rightarrow>
                (let stringTable =
                       drop (unat (SymbolTableStartAddress (FileHeader file))
                             + unat (NumSymbolTableEntries (FileHeader file)) * 18) r;
                     file = file\<lparr>Sections :=
                              replicate (unat (NumSections (FileHeader file))) None\<rparr>
                 in
                 (case read_sections r stringTable offset 0 (Sections file) of
                    Panic \<Rightarrow> Panic
                  | Returned (secs, Some err) \<Rightarrow>
                      Returned (Some (file\<lparr>Sections := secs\<rparr>), Some err)
                  | Returned (secs, None) \<Rightarrow>
                    (let file = file\<lparr>Sections := secs\<rparr> in
                     (case read_symbols r stringTable
                             (unat (SymbolTableStartAddress (FileHeader file)))
                             (NumSymbolTableEntries (FileHeader file)) [] of
                        Panic \<Rightarrow> Panic
                      | Returned (syms, err) \<Rightarrow>
                          Returned (Some (file\<lparr>symbols := syms\<rparr>), err))))))))))"

text \<open>\<^verbatim>\<open>func (f *File) Symbols() ([]Symbol, error)\<close> never fails.\<close>

definition Symbols :: "File \<Rightarrow> Symbol list \<times> error option" where
  "Symbols f = (symbols f, None)"

text \<open>
  The number of eighteen-byte slots of the symbol table that a list of decoded symbols
  stands for: one for each symbol, one more when it carries an auxiliary entry.
\<close>

definition slots_consumed :: "Symbol list \<Rightarrow> nat" where
  "slots_consumed syms =
     sum_list (map (\<lambda>s. case AuxiliaryEntry s of None \<Rightarrow> 1 | Some a \<Rightarrow> 2) syms)"

section \<open>Package debug: the unified layer\<close>

text \<open>
  Package \<^verbatim>\<open>debug/elf\<close> of the standard library is not part of the repository. Its
  decoder is a parameter \<open>elf_NewFile\<close> of the unified layer; of its results only what
  package \<^verbatim>\<open>debug\<close> reads is kept: the sections, what the method \<^verbatim>\<open>Symbols()\<close>
  returns, and the message of an error.
\<close>

record elf_Section =
  elf_Name :: "byte list"
  elf_Addr :: "64 word"
  elf_Size :: "64 word"

record elf_Symbol =
  elfsym_Name :: "byte list"
  elfsym_Value :: "64 word"
  elfsym_Size :: "64 word"

record elf_File =
  elf_Sections :: "elf_Section list"
  elf_Symbols :: "string + elf_Symbol list"

datatype FileType = FileTypeUnknown | FileTypeELF | FileTypeCOFF

text \<open>
  Error values seen by a caller of package \<^verbatim>\<open>debug\<close>: an error of \<^verbatim>\<open>os\<close> or of
  \<^verbatim>\<open>debug/elf\<close> (by its message), an error of package \<^verbatim>\<open>coff\<close>, the value
  \<^verbatim>\<open>fmt.Errorf\<close> builds (by its message), and the \<^verbatim>\<open>ErrorSlice\<close>.
\<close>

datatype debug_error =
  OsError string
| ElfError string
| CoffError error
| ErrorString string
| ErrorSlice "debug_error list"

text \<open>The method \<^verbatim>\<open>Error()\<close> of the errors of package \<^verbatim>\<open>coff\<close>, as \<^verbatim>\<open>%v\<close> prints them.\<close>

fun coff_Error :: "error \<Rightarrow> string" where
  "coff_Error ErrInvalidTargetID = ''invalid target ID''"
| "coff_Error EOF = ''EOF''"
| "coff_Error ErrUnexpectedEOF = ''unexpected EOF''"

definition Errors :: "debug_error \<Rightarrow> debug_error list" where
  "Errors err = (case err of ErrorSlice es \<Rightarrow> es | _ \<Rightarrow> [err])"

text \<open>The interface \<^verbatim>\<open>Section\<close> has two implementations, each wrapping a pointer.\<close>

datatype debug_Section = elfSection elf_Section | coffSection "Section option"

record debug_Symbol =
  dbg_Name :: "byte list"
  dbg_Value :: "64 word"
  dbg_Size :: "64 word"

definition new_debug_Symbol :: debug_Symbol where
  "new_debug_Symbol = \<lparr>dbg_Name = [], dbg_Value = 0, dbg_Size = 0\<rparr>"

record debug_File =
  FileType :: FileType
  dbg_Sections :: "debug_Section list"
  dbg_Symbols :: "debug_Symbol list"
  closer :: "string option"

definition new_debug_File :: debug_File where
  "new_debug_File =
     \<lparr>FileType = FileTypeUnknown, dbg_Sections = [], dbg_Symbols = [], closer = None\<rparr>"

text \<open>
  The two loops that fill \<^verbatim>\<open>file.Symbols\<close>, made with \<open>len(symbols)\<close> zero values
  (\<open>syms\<close> is the local \<^verbatim>\<open>symbols\<close>):
  \<^verbatim>\<open>for i := 0; i < len(file.Symbols); i++\<close> assigns the fields of element \<open>i\<close>.
\<close>

definition copy_elf_symbols :: "elf_Symbol list \<Rightarrow> debug_Symbol list" where
  "copy_elf_symbols syms =
     foldl (\<lambda>out i. out[i := (out ! i)\<lparr>dbg_Name := elfsym_Name (syms ! i),
                                        dbg_Value := elfsym_Value (syms ! i),
                                        dbg_Size := elfsym_Size (syms ! i)\<rparr>])
       (replicate (length syms) new_debug_Symbol) [0..<length syms]"

definition copy_coff_symbols :: "Symbol list \<Rightarrow> debug_Symbol list" where
  "copy_coff_symbols syms =
     foldl (\<lambda>out i.
              (let out = out[i := (out ! i)\<lparr>dbg_Name := sym_Name (syms ! i)\<rparr>];
                   out = out[i := (out ! i)\<lparr>dbg_Value := ucast (Value (syms ! i))\<rparr>]
               in (case AuxiliaryEntry (syms ! i) of
                     Some aux \<Rightarrow> out[i := (out ! i)\<lparr>dbg_Size := ucast (aux_Size aux)\<rparr>]
                   | None \<Rightarrow> out)))
       (replicate (length syms) new_debug_Symbol) [0..<length syms]"

text \<open>
  \<^verbatim>\<open>debug.NewFile\<close>, in the later of the two revisions that the sources hold (the one
  with \<^verbatim>\<open>Symbols\<close> and \<^verbatim>\<open>ErrorSlice\<close>), with the two decoders it calls as
  parameters. A nil \<^verbatim>\<open>*coff.File\<close> returned with a nil error would be dereferenced: a
  panic.
\<close>

definition debug_NewFile_with ::
  "(byte list \<Rightarrow> string + elf_File) \<Rightarrow> (byte list \<Rightarrow> (File option \<times> error option) outcome)
     \<Rightarrow> byte list \<Rightarrow> (debug_File option \<times> debug_error option) outcome" where
  "debug_NewFile_with elf_NewFile coff_NewFile r =
     (let file = new_debug_File; es = [] in
      (case elf_NewFile r of
         Inr ef \<Rightarrow>
           (let file = file\<lparr>FileType := FileTypeELF\<rparr>;
                file = file\<lparr>dbg_Sections := map elfSection (elf_Sections ef)\<rparr>
            in (case elf_Symbols ef of
                  Inl err \<Rightarrow> Returned (Some file, Some (ElfError err))
                | Inr syms \<Rightarrow>
                    Returned (Some (file\<lparr>dbg_Symbols := copy_elf_symbols syms\<rparr>), None)))
       | Inl err \<Rightarrow>
           (let es = es @ [ErrorString (''debug/elf: '' @ err)] in
            (case coff_NewFile r of
               Panic \<Rightarrow> Panic
             | Returned (cf, Some err) \<Rightarrow>
                 (let es = es @ [ErrorString (''debug/coff: '' @ coff_Error err)]
                  in Returned (None, Some (ErrorSlice es)))
             | Returned (None, None) \<Rightarrow> Panic
             | Returned (Some cf, None) \<Rightarrow>
                 (let file = file\<lparr>FileType := FileTypeCOFF\<rparr>;
                      file = file\<lparr>dbg_Sections := map coffSection (Sections cf)\<rparr>
                  in (case Symbols cf of
                        (syms, Some err) \<Rightarrow>
                          Returned (Some file, Some (CoffError err))
                      | (syms, None) \<Rightarrow>
                          Returned
                            (Some (file\<lparr>dbg_Symbols := copy_coff_symbols syms\<rparr>),
                             None)))))))"

text \<open>\<^verbatim>\<open>debug.NewFile\<close> itself calls \<^verbatim>\<open>coff.NewFile\<close>.\<close>

definition debug_NewFile ::
  "(byte list \<Rightarrow> string + elf_File) \<Rightarrow> byte list
     \<Rightarrow> (debug_File option \<times> debug_error option) outcome" where
  "debug_NewFile elf_NewFile r = debug_NewFile_with elf_NewFile NewFile r"

text \<open>
  \<^verbatim>\<open>debug.Open\<close>: \<open>os_Open\<close> maps a path to the bytes of the file or to the message
  of the error of \<^verbatim>\<open>os.Open\<close>. On an error of \<^verbatim>\<open>NewFile\<close> the handle is closed and
  nil is returned with the error; otherwise the handle is kept in \<^verbatim>\<open>closer\<close>.
\<close>

definition debug_Open ::
  "(string \<Rightarrow> string + byte list) \<Rightarrow> (byte list \<Rightarrow> string + elf_File) \<Rightarrow> string
     \<Rightarrow> (debug_File option \<times> debug_error option) outcome" where
  "debug_Open os_Open elf_NewFile name =
     (case os_Open name of
        Inl err \<Rightarrow> Returned (None, Some (OsError err))
      | Inr f \<Rightarrow>
          (case debug_NewFile elf_NewFile f of
             Panic \<Rightarrow> Panic
           | Returned (df, Some err) \<Rightarrow> Returned (None, Some err)
           | Returned (None, None) \<Rightarrow> Panic
           | Returned (Some df, None) \<Rightarrow> Returned (Some (df\<lparr>closer := Some name\<rparr>), None)))"

section \<open>Reading fixed-size records\<close>

declare read_sections.simps [simp del]
declare read_symbols.simps [simp del]

lemma take2_drop: "n + 2 \<le> length xs \<Longrightarrow> take 2 (drop n xs) = [xs ! n, xs ! Suc n]"
proof -
  assume "n + 2 \<le> length xs"
  then have "drop n xs = xs ! n # drop (Suc n) xs"
    and "drop (Suc n) xs = xs ! Suc n # drop (Suc (Suc n)) xs"
    by (simp_all add: Cons_nth_drop_Suc)
  then show ?thesis by (simp add: numeral_2_eq_2)
qed

lemma ReadFull_ok: "pos + n \<le> length r \<Longrightarrow> ReadFull r pos n = Inr (take n (drop pos r))"
  by (simp add: ReadFull_def Let_def)

lemma ReadFull_short:
  "length r < pos + n \<Longrightarrow> 0 < n \<Longrightarrow>
     ReadFull r pos n = Inl (if length r \<le> pos then EOF else ErrUnexpectedEOF)"
  by (auto simp add: ReadFull_def Let_def)

lemma ReadFull_Inr_iff: "0 < n \<Longrightarrow> (\<exists>buf. ReadFull r pos n = Inr buf) \<longleftrightarrow> pos + n \<le> length r"
  by (auto simp add: ReadFull_def Let_def)

section \<open>The target-device gate\<close>

lemma header_TargetID:
  assumes "22 \<le> length r"
  shows "\<exists>vs. binary_Read r 0 FileHeader_layout = Inr vs \<and>
           TargetID (FileHeader_of vs) = of_nat (unat (r ! 20) + 256 * unat (r ! 21))"
proof -
  have "drop 20 (take 22 r) = [r ! 20, r ! 21]"
    using assms take2_drop [of 20 r] by (simp add: drop_take)
  then show ?thesis using assms
    by (simp add: binary_Read_def ReadFull_def binary_Size_def FileHeader_layout_def
        FileHeader_of_def)
qed

lemma IsValidTargetID_iff:
  "IsValidTargetID h \<longleftrightarrow>
     TargetID h \<in> {0x0097, 0x0098, 0x0099, 0x009C, 0x009D, 0x00A0, 0x00A1}"
  by (simp add: IsValidTargetID_def targetIDMap_def)

lemma NewFile_invalid:
  assumes "binary_Read r 0 FileHeader_layout = Inr vs"
    and "\<not> IsValidTargetID (FileHeader_of vs)"
  shows "NewFile r = Returned (None, Some ErrInvalidTargetID)"
  using assms by (simp add: NewFile_def Let_def)

lemma NewFile_valid_nonnil:
  assumes "binary_Read r 0 FileHeader_layout = Inr vs"
    and "IsValidTargetID (FileHeader_of vs)"
  shows "NewFile r \<noteq> Returned (None, e)"
  using assms
  by (simp add: NewFile_def Let_def split: sum.splits prod.splits outcome.splits option.splits)

text \<open>
  Claim C1. A byte source holding a complete file header (22 bytes) whose target-device
  identifier, the little-endian 16-bit value at bytes 20 and 21, is none of the seven
  known values makes \<^verbatim>\<open>coff.NewFile\<close> return the nil file with
  \<^verbatim>\<open>ErrInvalidTargetID\<close>, whatever the other fields hold. With one of the seven values
  the check passes: decoding goes on, and whatever it returns afterwards, the file
  returned is not nil.
\<close>

theorem NewFile_target_id_gate:
  assumes "22 \<le> length r"
  shows "((word_of_nat (unat (r ! 20) + 256 * unat (r ! 21)) :: 16 word)
            \<notin> {0x0097, 0x0098, 0x0099, 0x009C, 0x009D, 0x00A0, 0x00A1}
          \<longrightarrow> NewFile r = Returned (None, Some ErrInvalidTargetID)) \<and>
         ((word_of_nat (unat (r ! 20) + 256 * unat (r ! 21)) :: 16 word)
            \<in> {0x0097, 0x0098, 0x0099, 0x009C, 0x009D, 0x00A0, 0x00A1}
          \<longrightarrow> (\<forall>e. NewFile r \<noteq> Returned (None, e)))"
proof -
  from header_TargetID [OF assms] obtain vs where
    vs: "binary_Read r 0 FileHeader_layout = Inr vs"
    and tid: "TargetID (FileHeader_of vs) = of_nat (unat (r ! 20) + 256 * unat (r ! 21))"
    by blast
  have "(word_of_nat (unat (r ! 20) + 256 * unat (r ! 21)) :: 16 word)
           \<notin> {0x0097, 0x0098, 0x0099, 0x009C, 0x009D, 0x00A0, 0x00A1}
         \<longrightarrow> NewFile r = Returned (None, Some ErrInvalidTargetID)"
    using NewFile_invalid [OF vs] tid by (simp only: IsValidTargetID_iff) simp
  moreover
  have "(word_of_nat (unat (r ! 20) + 256 * unat (r ! 21)) :: 16 word)
           \<in> {0x0097, 0x0098, 0x0099, 0x009C, 0x009D, 0x00A0, 0x00A1}
         \<longrightarrow> (\<forall>e. NewFile r \<noteq> Returned (None, e))"
    using NewFile_valid_nonnil [OF vs] tid by (simp only: IsValidTargetID_iff) simp
  ultimately show ?thesis by blast
qed

theorem NewFile_target_id_gate_witness:
  "NewFile [0xC2, 0, 0, 0, 0, 0, 0, 0, 22, 0, 0, 0, 0, 0, 0, 0, 0, 0, 0, 0, 0x96, 0]
     = Returned (None, Some ErrInvalidTargetID) \<and>
   (\<forall>e. NewFile [0xC2, 0, 0, 0, 0, 0, 0, 0, 22, 0, 0, 0, 0, 0, 0, 0, 0, 0, 0, 0, 0xA0, 0]
     \<noteq> Returned (None, e))"
  using
    NewFile_target_id_gate
      [of "[0xC2, 0, 0, 0, 0, 0, 0, 0, 22, 0, 0, 0, 0, 0, 0, 0, 0, 0, 0, 0, 0x96, 0]"]
    NewFile_target_id_gate
      [of "[0xC2, 0, 0, 0, 0, 0, 0, 0, 22, 0, 0, 0, 0, 0, 0, 0, 0, 0, 0, 0, 0xA0, 0]"]
  by simp

section \<open>Name resolution\<close>

lemma bit_byte_bound: "bit (b :: byte) n \<Longrightarrow> n < 8"
  by (auto dest: bit_imp_le_length)

lemma or_bytes_add:
  fixes b4 b5 b6 b7 :: byte
  shows "(push_bit 24 (ucast b7) OR push_bit 16 (ucast b6) OR push_bit 8 (ucast b5)
            OR push_bit 0 (ucast b4) :: 32 word)
         = push_bit 24 (ucast b7) + (push_bit 16 (ucast b6) + (push_bit 8 (ucast b5) + ucast b4))"
proof -
  have 1: "push_bit 8 (ucast b5) + ucast b4 = (push_bit 8 (ucast b5) OR ucast b4 :: 32 word)"
    by (rule disjunctive_add) (auto simp: bit_simps dest: bit_byte_bound)
  have 2: "push_bit 16 (ucast b6) + (push_bit 8 (ucast b5) OR ucast b4)
             = (push_bit 16 (ucast b6) OR (push_bit 8 (ucast b5) OR ucast b4) :: 32 word)"
    by (rule disjunctive_add) (auto simp: bit_simps dest: bit_byte_bound)
  have 3: "push_bit 24 (ucast b7) + (push_bit 16 (ucast b6) OR (push_bit 8 (ucast b5) OR ucast b4))
             = (push_bit 24 (ucast b7) OR
                 (push_bit 16 (ucast b6) OR (push_bit 8 (ucast b5) OR ucast b4)) :: 32 word)"
    by (rule disjunctive_add) (auto simp: bit_simps dest: bit_byte_bound)
  show ?thesis by (simp only: 1 2 3 push_bit_0_id id_apply)
qed

lemma unat_byte_lt: "unat (b :: byte) < 256"
  using unsigned_less [of b, where 'a = nat] by simp

text \<open>The offset of \<^verbatim>\<open>getString\<close> is the little-endian value of bytes 4 to 7.\<close>

lemma offset_le:
  fixes b4 b5 b6 b7 :: byte
  shows "unat (push_bit 24 (ucast b7) OR push_bit 16 (ucast b6) OR push_bit 8 (ucast b5)
                 OR ucast b4 :: 32 word)
         = unat b4 + 256 * unat b5 + 65536 * unat b6 + 16777216 * unat b7"
proof -
  let ?n = "unat b4 + 256 * unat b5 + 65536 * unat b6 + 16777216 * unat b7"
  have "(push_bit 24 (ucast b7) + (push_bit 16 (ucast b6) + (push_bit 8 (ucast b5) + ucast b4))
          :: 32 word) = of_nat ?n"
    by (simp add: push_bit_eq_mult)
  then have "(push_bit 24 (ucast b7) OR push_bit 16 (ucast b6) OR push_bit 8 (ucast b5)
                OR ucast b4 :: 32 word) = of_nat ?n"
    using or_bytes_add [of b7 b6 b5 b4] by (simp only: push_bit_0_id id_apply)
  moreover have "?n < 2 ^ 32"
    using unat_byte_lt [of b4] unat_byte_lt [of b5] unat_byte_lt [of b6] unat_byte_lt [of b7]
    by simp
  ultimately show ?thesis
    by (simp only: unat_of_nat) simp
qed

lemma ReadBytes_found: "d \<notin> set s \<Longrightarrow> ReadBytes (s @ d # rest) d = (s @ [d], None)"
  by (induction s) auto

lemma ReadBytes_notfound: "d \<notin> set bs \<Longrightarrow> ReadBytes bs d = (bs, Some EOF)"
  by (induction bs) auto

lemma TrimRight_NUL_decomp: "\<exists>k. s = TrimRight s [0] @ replicate k 0"
proof -
  let ?P = "\<lambda>c::byte. c \<in> set [0]"
  have "rev s = takeWhile ?P (rev s) @ dropWhile ?P (rev s)" by simp
  then have "s = rev (dropWhile ?P (rev s)) @ rev (takeWhile ?P (rev s))"
    by (metis rev_append rev_rev_ident)
  moreover have "\<forall>x \<in> set (rev (takeWhile ?P (rev s))). x = 0"
    by (auto dest: set_takeWhileD)
  then have "rev (takeWhile ?P (rev s)) = replicate (length (rev (takeWhile ?P (rev s)))) 0"
    using replicate_length_same [of "rev (takeWhile ?P (rev s))" 0] by presburger
  ultimately show ?thesis unfolding TrimRight_def by metis
qed

lemma TrimRight_NUL_last: "TrimRight s [0] = [] \<or> last (TrimRight s [0]) \<noteq> 0"
proof (cases "dropWhile (\<lambda>c::byte. c \<in> set [0]) (rev s)")
  case Nil
  then show ?thesis by (simp add: TrimRight_def)
next
  case (Cons a as)
  then have "\<not> a \<in> set [0::byte]"
    using hd_dropWhile [of "\<lambda>c::byte. c \<in> set [0]" "rev s"] by simp
  then show ?thesis using Cons by (simp add: TrimRight_def)
qed

text \<open>
  What \<^verbatim>\<open>getString\<close> does with a string-table reference, in full: a panic when the
  offset lies beyond the end of the table, the bytes before the first NUL when there is
  one at or after the offset, and \<^verbatim>\<open>io.EOF\<close> otherwise.
\<close>

lemma getString_table:
  assumes "name ! 0 = 0 \<and> name ! 1 = 0 \<and> name ! 2 = 0 \<and> name ! 3 = 0"
  shows "getString stringTable name =
     (let k = unat (name ! 4) + 256 * unat (name ! 5) + 65536 * unat (name ! 6)
                + 16777216 * unat (name ! 7)
      in if length stringTable < k then Panic
         else if 0 \<in> set (drop k stringTable)
           then Returned (Inr (takeWhile (\<lambda>b. b \<noteq> 0) (drop k stringTable)))
         else Returned (Inl EOF))"
proof -
  let ?k = "unat (name ! 4) + 256 * unat (name ! 5) + 65536 * unat (name ! 6)
                + 16777216 * unat (name ! 7)"
  have "0 \<in> set (drop ?k stringTable) \<Longrightarrow>
     ReadBytes (drop ?k stringTable) 0
       = (takeWhile (\<lambda>b. b \<noteq> 0) (drop ?k stringTable) @ [0], None)"
  proof -
    assume a: "0 \<in> set (drop ?k stringTable)"
    let ?xs = "drop ?k stringTable"
    have "?xs = takeWhile (\<lambda>b. b \<noteq> 0) ?xs @ dropWhile (\<lambda>b. b \<noteq> 0) ?xs" by simp
    moreover from a have "dropWhile (\<lambda>b. b \<noteq> 0) ?xs \<noteq> []"
      by (simp add: dropWhile_eq_Nil_conv)
    then obtain rest where "dropWhile (\<lambda>b. b \<noteq> 0) ?xs = 0 # rest"
      using hd_dropWhile [of "\<lambda>b. b \<noteq> 0" ?xs]
      by (cases "dropWhile (\<lambda>b. b \<noteq> 0) ?xs") auto
    ultimately have "?xs = takeWhile (\<lambda>b. b \<noteq> 0) ?xs @ 0 # rest" by simp
    moreover have "0 \<notin> set (takeWhile (\<lambda>b. b \<noteq> 0) ?xs)" by (auto dest: set_takeWhileD)
    ultimately show ?thesis using ReadBytes_found by metis
  qed
  then show ?thesis using assms
    by (simp add: getString_def Let_def offset_le ReadBytes_notfound)
qed

lemma getString_inline:
  assumes "\<not> (name ! 0 = 0 \<and> name ! 1 = 0 \<and> name ! 2 = 0 \<and> name ! 3 = 0)"
  shows "getString stringTable name = Returned (Inr (TrimRight name [0]))"
  using assms by (auto simp add: getString_def)

text \<open>
  Claim C3. For an eight-byte name field: the offset
  \<open>byte[7]<<24 | byte[6]<<16 | byte[5]<<8 | byte[4]\<close> is the little-endian value of the last
  four bytes; when the first four bytes are all zero and the string table holds, from
  that offset on, bytes \<open>s\<close> free of NUL followed by a NUL, the name resolves to \<open>s\<close>
  (the terminator left out); otherwise (some of the first four bytes is not zero) it
  resolves to the field with its trailing NUL bytes stripped: a prefix \<open>t\<close> of the field
  that does not end in NUL, the rest of the field being NUL bytes only, so that NUL
  bytes inside \<open>t\<close> are kept.
\<close>

theorem getString_resolves:
  assumes "length name = 8"
  shows
    "unat (push_bit 24 (ucast (name ! 7)) OR push_bit 16 (ucast (name ! 6)) OR
           push_bit 8 (ucast (name ! 5)) OR ucast (name ! 4) :: 32 word)
       = unat (name ! 4) + 256 * unat (name ! 5) + 65536 * unat (name ! 6)
           + 16777216 * unat (name ! 7) \<and>
     (name ! 0 = 0 \<and> name ! 1 = 0 \<and> name ! 2 = 0 \<and> name ! 3 = 0 \<longrightarrow>
        (\<forall>s rest.
           drop (unat (push_bit 24 (ucast (name ! 7)) OR push_bit 16 (ucast (name ! 6)) OR
                       push_bit 8 (ucast (name ! 5)) OR ucast (name ! 4) :: 32 word))
             stringTable = s @ 0 # rest \<and> 0 \<notin> set s
           \<longrightarrow> getString stringTable name = Returned (Inr s))) \<and>
     (\<not> (name ! 0 = 0 \<and> name ! 1 = 0 \<and> name ! 2 = 0 \<and> name ! 3 = 0) \<longrightarrow>
        (\<exists>t. getString stringTable name = Returned (Inr t) \<and>
             name = t @ replicate (8 - length t) 0 \<and> (t = [] \<or> last t \<noteq> 0)))"
proof (intro conjI impI allI)
  show "unat (push_bit 24 (ucast (name ! 7)) OR push_bit 16 (ucast (name ! 6)) OR
           push_bit 8 (ucast (name ! 5)) OR ucast (name ! 4) :: 32 word)
       = unat (name ! 4) + 256 * unat (name ! 5) + 65536 * unat (name ! 6)
           + 16777216 * unat (name ! 7)"
    by (rule offset_le)
next
  fix s rest
  assume z: "name ! 0 = 0 \<and> name ! 1 = 0 \<and> name ! 2 = 0 \<and> name ! 3 = 0"
    and d: "drop (unat (push_bit 24 (ucast (name ! 7)) OR push_bit 16 (ucast (name ! 6)) OR
                       push_bit 8 (ucast (name ! 5)) OR ucast (name ! 4) :: 32 word))
             stringTable = s @ 0 # rest \<and> 0 \<notin> set s"
  let ?k = "unat (name ! 4) + 256 * unat (name ! 5) + 65536 * unat (name ! 6)
              + 16777216 * unat (name ! 7)"
  from d have dk: "drop ?k stringTable = s @ 0 # rest" and s: "0 \<notin> set s"
    by (simp_all add: offset_le)
  from dk have "\<not> length stringTable < ?k"
    by (metis Nil_is_append_conv drop_all less_imp_le_nat list.distinct(1))
  moreover from s have "takeWhile (\<lambda>b. b \<noteq> 0) (s @ 0 # rest) = s"
    by (auto simp add: takeWhile_tail takeWhile_eq_all_conv)
  ultimately show "getString stringTable name = Returned (Inr s)"
    using dk by (simp add: getString_table [OF z] Let_def)
next
  assume nz: "\<not> (name ! 0 = 0 \<and> name ! 1 = 0 \<and> name ! 2 = 0 \<and> name ! 3 = 0)"
  obtain k where k: "name = TrimRight name [0] @ replicate k 0"
    using TrimRight_NUL_decomp by blast
  then have "length name = length (TrimRight name [0]) + k"
    by (metis length_append length_replicate)
  with assms have "k = 8 - length (TrimRight name [0])" by simp
  with k have "name = TrimRight name [0] @ replicate (8 - length (TrimRight name [0])) 0"
    by simp
  then show "\<exists>t. getString stringTable name = Returned (Inr t) \<and>
             name = t @ replicate (8 - length t) 0 \<and> (t = [] \<or> last t \<noteq> 0)"
    using getString_inline [OF nz] TrimRight_NUL_last [of name] by blast
qed

text \<open>
  The string table \<open>x\<close>, NUL, \<open>foo\<close>, NUL, \<open>y\<close> with the reference to offset 2 gives
  \<open>foo\<close>; the inline field \<open>abc\<close> followed by five NUL bytes gives \<open>abc\<close>.
\<close>

theorem getString_resolves_witness:
  "getString [0x78, 0, 0x66, 0x6F, 0x6F, 0, 0x79] [0, 0, 0, 0, 2, 0, 0, 0]
     = Returned (Inr [0x66, 0x6F, 0x6F]) \<and>
   getString [] [0x61, 0x62, 0x63, 0, 0, 0, 0, 0] = Returned (Inr [0x61, 0x62, 0x63])"
proof
  show "getString [0x78, 0, 0x66, 0x6F, 0x6F, 0, 0x79] [0, 0, 0, 0, 2, 0, 0, 0]
     = Returned (Inr [0x66, 0x6F, 0x6F])"
    using getString_resolves
      [of "[0, 0, 0, 0, 2, 0, 0, 0]" "[0x78, 0, 0x66, 0x6F, 0x6F, 0, 0x79]",
       THEN conjunct2, THEN conjunct1, rule_format, of "[0x66, 0x6F, 0x6F]" "[0x79]"]
    by simp
  from getString_resolves [of "[0x61, 0x62, 0x63, 0, 0, 0, 0, 0]" "[]",
      THEN conjunct2, THEN conjunct2]
  obtain t where "getString [] [0x61, 0x62, 0x63, 0, 0, 0, 0, 0] = Returned (Inr t)"
    by auto
  then show "getString [] [0x61, 0x62, 0x63, 0, 0, 0, 0, 0]
      = Returned (Inr [0x61, 0x62, 0x63])"
    by (simp add: getString_def TrimRight_def)
qed

text \<open>
  Claim C5. The claim asks for an error on every string reference that is out of range
  or unterminated. An unterminated reference does yield an error (\<^verbatim>\<open>io.EOF\<close>, see
  \<open>getString_table\<close>), but an offset beyond the end of the table makes the slice
  expression \<^verbatim>\<open>stringTable[offset:]\<close> panic: with the two-byte table \<open>a\<close>, NUL and offset 3,
  \<^verbatim>\<open>getString\<close> does not return, and neither does \<^verbatim>\<open>coff.NewFile\<close> on a file whose
  single symbol carries that reference.
\<close>

theorem getString_out_of_range_panics:
  "getString [0x61, 0] [0, 0, 0, 0, 3, 0, 0, 0] = Panic \<and>
   NewFile ([0xC2, 0, 0, 0, 0, 0, 0, 0, 22, 0, 0, 0, 1, 0, 0, 0, 0, 0, 0, 0, 0x97, 0] @
            [0, 0, 0, 0, 3, 0, 0, 0, 0, 0, 0, 0, 1, 0, 0, 0, 2, 0] @ [0x61, 0]) = Panic"
  by (simp add: getString_def NewFile_def Let_def binary_Read_def ReadFull_def binary_Size_def
        FileHeader_layout_def FileHeader_of_def IsValidTargetID_def targetIDMap_def
        read_sections.simps read_symbols.simps symbol_layout_def)

section \<open>Record layout\<close>

text \<open>
  Claim C4, as the claim states it, fails on two constants. The struct \<^verbatim>\<open>FileHeader\<close>
  has eight fields of 2, 2, 4, 4, 4, 2, 2 and 2 bytes, 22 in all, and
  \<^verbatim>\<open>OptionalFileHeader\<close> two of 2 bytes and six of 4 bytes, 28 in all; the claim has
  20 and 24. A byte source of 20 bytes is therefore not a complete header, and an
  optional header of 24 bytes is a truncated one.
\<close>

theorem header_sizes_counterexample:
  "binary_Size FileHeader_layout \<noteq> 20 \<and>
   binary_Size OptionalFileHeader_layout \<noteq> 24 \<and>
   NewFile [0xC2, 0, 0, 0, 0, 0, 0, 0, 20, 0, 0, 0, 0, 0, 0, 0, 0, 0, 0x97, 0]
     = Returned (Some new_File, Some ErrUnexpectedEOF) \<and>
   (\<exists>f. NewFile ([0xC2, 0, 0, 0, 0, 0, 0, 0, 46, 0, 0, 0, 0, 0, 0, 0, 24, 0, 0, 0, 0x97, 0]
             @ replicate 24 0)
     = Returned (Some f, Some ErrUnexpectedEOF))"
  by (simp add: NewFile_def Let_def binary_Read_def ReadFull_def binary_Size_def
        FileHeader_layout_def OptionalFileHeader_layout_def FileHeader_of_def
        IsValidTargetID_def targetIDMap_def)

text \<open>
  Claim C4, amended: the file header is a fixed 22-byte record and the optional header a
  fixed 28-byte record; a symbol is the 8-byte name field and a 10-byte body (value 4,
  section number 2, reserved 2, storage class 1, auxiliary count 1), 18 bytes in all; an
  auxiliary record is 18 bytes (size 4, relocation count 2, line count 2, reserved 10);
  so every slot of the symbol table, primary or auxiliary, is 18 bytes; and multi-byte
  integers are decoded little-endian.
\<close>

theorem record_layout:
  "binary_Size FileHeader_layout = 22 \<and>
   binary_Size OptionalFileHeader_layout = 28 \<and>
   map sizeof symbol_layout = [4, 2, 2, 1, 1] \<and>
   8 + binary_Size symbol_layout = 18 \<and>
   map sizeof AuxiliaryEntry_layout = [4, 2, 2, 10] \<and>
   binary_Size AuxiliaryEntry_layout = 18 \<and>
   decode [Uint16] [b0, b1] = [unat b0 + 256 * unat b1] \<and>
   decode [Int16] [b0, b1] = [unat b0 + 256 * unat b1] \<and>
   decode [Uint32] [b0, b1, b2, b3]
     = [unat b0 + 256 * unat b1 + 65536 * unat b2 + 16777216 * unat b3]"
  by (simp add: binary_Size_def FileHeader_layout_def OptionalFileHeader_layout_def
        symbol_layout_def AuxiliaryEntry_layout_def)

section \<open>The loops of the decoder and what it can return\<close>

lemma binary_Read_bound:
  "binary_Read r pos layout = Inr vs \<Longrightarrow> 0 < binary_Size layout \<Longrightarrow>
     pos + binary_Size layout \<le> length r"
  by (auto simp add: binary_Read_def ReadFull_def Let_def split: if_splits sum.splits)

lemma ReadFull_bound: "ReadFull r pos n = Inr buf \<Longrightarrow> 0 < n \<Longrightarrow> pos + n \<le> length r"
  by (auto simp add: ReadFull_def Let_def split: if_splits)

lemma binary_Size_symbol [simp]: "binary_Size symbol_layout = 10"
  by (simp add: binary_Size_def symbol_layout_def)

lemma binary_Size_AuxiliaryEntry [simp]: "binary_Size AuxiliaryEntry_layout = 18"
  by (simp add: binary_Size_def AuxiliaryEntry_layout_def)

lemma slots_consumed_snoc:
  "slots_consumed (syms @ [s]) =
     slots_consumed syms + (case AuxiliaryEntry s of None \<Rightarrow> 1 | Some a \<Rightarrow> 2)"
  by (simp add: slots_consumed_def)

lemma AuxiliaryEntry_Symbol_of [simp]: "AuxiliaryEntry (Symbol_of name vs a) = a"
  by (simp add: Symbol_of_def)

lemma read_symbols_slots:
  "read_symbols r st pos i syms = Returned (syms', None) \<Longrightarrow>
     \<exists>c. slots_consumed syms' = slots_consumed syms + c \<and> of_nat c = i \<and>
         (c = 0 \<or> pos + 18 * c \<le> length r)"
proof (induction r st pos i syms rule: read_symbols.induct)
  case (1 r st pos i syms)
  show ?case
  proof (cases "0 < i")
    case False
    then have "i = 0" by (simp add: word_gt_0)
    with "1.prems" have "syms' = syms" by (simp add: read_symbols.simps)
    with \<open>i = 0\<close> show ?thesis by auto
  next
    case True
    from "1.prems" True obtain chars symb name where
      chars: "ReadFull r pos 8 = Inr chars"
      and symb: "binary_Read r (pos + 8) symbol_layout = Inr symb"
      and name: "getString st chars = Returned (Inr name)"
      by (subst (asm) read_symbols.simps) (auto split: sum.splits outcome.splits)
    from symb have b18: "pos + 18 \<le> length r"
      using binary_Read_bound [OF symb] by simp
    show ?thesis
    proof (cases "(of_nat (symb ! 3) :: 8 word) = 1")
      case aux1: True
      from "1.prems" True chars symb name aux1 obtain aux where
        aux: "binary_Read r (pos + 8 + binary_Size symbol_layout) AuxiliaryEntry_layout = Inr aux"
        and rec: "read_symbols r st
                    (pos + 8 + binary_Size symbol_layout + binary_Size AuxiliaryEntry_layout)
                    (i - 1 - 1)
                    (syms @ [Symbol_of name symb (Some (AuxiliaryEntry_of aux))])
                  = Returned (syms', None)"
        by (subst (asm) read_symbols.simps) (auto split: sum.splits)
      from "1.IH"(1) [OF True chars symb name refl aux1 aux rec] obtain c where
        c: "slots_consumed syms'
              = slots_consumed (syms @ [Symbol_of name symb (Some (AuxiliaryEntry_of aux))]) + c"
          "of_nat c = i - 1 - 1"
          "c = 0 \<or> pos + 8 + binary_Size symbol_layout + binary_Size AuxiliaryEntry_layout
                    + 18 * c \<le> length r"
        by blast
      from binary_Read_bound [OF aux] have b36: "pos + 36 \<le> length r" by simp
      have "slots_consumed syms' = slots_consumed syms + (c + 2)"
        using c(1) by (simp add: slots_consumed_snoc)
      moreover have "(of_nat (c + 2) :: 32 word) = i" using c(2) by simp
      moreover have "pos + 18 * (c + 2) \<le> length r" using c(3) b36 by auto
      ultimately show ?thesis by blast
    next
      case aux0: False
      from "1.prems" True chars symb name aux0 have
        rec: "read_symbols r st (pos + 8 + binary_Size symbol_layout) (i - 1)
                    (syms @ [Symbol_of name symb None]) = Returned (syms', None)"
        by (subst (asm) read_symbols.simps) (auto split: sum.splits)
      from "1.IH"(2) [OF True chars symb name refl aux0 rec] obtain c where
        c: "slots_consumed syms' = slots_consumed (syms @ [Symbol_of name symb None]) + c"
          "of_nat c = i - 1"
          "c = 0 \<or> pos + 8 + binary_Size symbol_layout + 18 * c \<le> length r"
        by blast
      have "slots_consumed syms' = slots_consumed syms + (c + 1)"
        using c(1) by (simp add: slots_consumed_snoc)
      moreover have "(of_nat (c + 1) :: 32 word) = i" using c(2) by simp
      moreover have "pos + 18 * (c + 1) \<le> length r" using c(3) b18 by auto
      ultimately show ?thesis by blast
    qed
  qed
qed


lemma binary_Size_FileHeader [simp]: "binary_Size FileHeader_layout = 22"
  by (simp add: binary_Size_def FileHeader_layout_def)

lemma binary_Size_OptionalFileHeader [simp]: "binary_Size OptionalFileHeader_layout = 28"
  by (simp add: binary_Size_def OptionalFileHeader_layout_def)

lemma binary_Size_sectionHeader [simp]: "binary_Size sectionHeader_layout = 40"
  by (simp add: binary_Size_def sectionHeader_layout_def)

lemma NewFile_header_fail:
  "binary_Read r 0 FileHeader_layout = Inl e \<Longrightarrow> NewFile r = Returned (Some new_File, Some e)"
  by (simp add: NewFile_def Let_def)

lemma NewFile_opt_fail:
  assumes "binary_Read r 0 FileHeader_layout = Inr vs"
    and "IsValidTargetID (FileHeader_of vs)"
    and "0 < OptionalFileHeaderSize (FileHeader_of vs)"
    and "binary_Read r 22 OptionalFileHeader_layout = Inl e"
  shows "NewFile r =
     Returned (Some (new_File\<lparr>FileHeader := FileHeader_of vs,
                               OptionalFileHeader := Some new_OptionalFileHeader\<rparr>), Some e)"
  using assms by (simp add: NewFile_def Let_def)

lemma NewFile_body:
  assumes "binary_Read r 0 FileHeader_layout = Inr vs"
    and "IsValidTargetID (FileHeader_of vs)"
    and "(OptionalFileHeaderSize (FileHeader_of vs) = 0 \<and> off = 22 \<and> opt = None) \<or>
         (0 < OptionalFileHeaderSize (FileHeader_of vs) \<and>
          (\<exists>ws. binary_Read r 22 OptionalFileHeader_layout = Inr ws \<and>
                opt = Some (OptionalFileHeader_of ws)) \<and> off = 50)"
  shows "NewFile r =
     (case read_sections r
             (drop (unat (SymbolTableStartAddress (FileHeader_of vs))
                    + unat (NumSymbolTableEntries (FileHeader_of vs)) * 18) r)
             off 0 (replicate (unat (NumSections (FileHeader_of vs))) None) of
        Panic \<Rightarrow> Panic
      | Returned (secs, Some err) \<Rightarrow>
          Returned (Some \<lparr>FileHeader = FileHeader_of vs, OptionalFileHeader = opt,
                           Sections = secs, symbols = []\<rparr>, Some err)
      | Returned (secs, None) \<Rightarrow>
          (case read_symbols r
                  (drop (unat (SymbolTableStartAddress (FileHeader_of vs))
                         + unat (NumSymbolTableEntries (FileHeader_of vs)) * 18) r)
                  (unat (SymbolTableStartAddress (FileHeader_of vs)))
                  (NumSymbolTableEntries (FileHeader_of vs)) [] of
             Panic \<Rightarrow> Panic
           | Returned (syms, err) \<Rightarrow>
               Returned (Some \<lparr>FileHeader = FileHeader_of vs, OptionalFileHeader = opt,
                                Sections = secs, symbols = syms\<rparr>, err)))"
proof -
  from assms(3) consider
    (none) "OptionalFileHeaderSize (FileHeader_of vs) = 0" "off = 22" "opt = None"
  | (some) ws where "0 < OptionalFileHeaderSize (FileHeader_of vs)"
      "binary_Read r 22 OptionalFileHeader_layout = Inr ws"
      "opt = Some (OptionalFileHeader_of ws)" "off = 50"
    by blast
  then show ?thesis
  proof cases
    case none
    with assms(1,2) show ?thesis
      by (simp add: NewFile_def Let_def new_File_def
          split: outcome.splits prod.splits option.splits)
  next
    case some
    with assms(1,2) show ?thesis
      by (simp add: NewFile_def Let_def new_File_def
          split: outcome.splits prod.splits option.splits)
  qed
qed


lemma ReadFull_err: "ReadFull r pos n = Inl e \<Longrightarrow> e = EOF \<or> e = ErrUnexpectedEOF"
  by (auto simp add: ReadFull_def Let_def split: if_splits)

lemma binary_Read_err:
  "binary_Read r pos layout = Inl e \<Longrightarrow> e = EOF \<or> e = ErrUnexpectedEOF"
  by (auto simp add: binary_Read_def dest: ReadFull_err split: sum.splits)

lemma ReadBytes_err: "snd (ReadBytes bs d) = None \<or> snd (ReadBytes bs d) = Some EOF"
  by (induction bs) (auto split: prod.splits)

lemma getString_err: "getString st name = Returned (Inl e) \<Longrightarrow> e = EOF"
  using ReadBytes_err [of "drop (unat (push_bit 24 (ucast (name ! 7)) OR
          push_bit 16 (ucast (name ! 6)) OR push_bit 8 (ucast (name ! 5)) OR
          ucast (name ! 4) :: 32 word)) st" 0]
  by (auto simp add: getString_def Let_def split: if_splits prod.splits option.splits)

lemma read_sections_err:
  "read_sections r st off i secs = Returned (secs', Some e) \<Longrightarrow>
     e = EOF \<or> e = ErrUnexpectedEOF"
proof (induction r st off i secs rule: read_sections.induct)
  case (1 r st off i secs)
  from "1.prems" show ?case
    by (subst (asm) read_sections.simps)
      (auto split: if_splits sum.splits outcome.splits
        dest: ReadFull_err binary_Read_err getString_err "1.IH")
qed

lemma read_symbols_err:
  "read_symbols r st pos i syms = Returned (syms', Some e) \<Longrightarrow>
     e = EOF \<or> e = ErrUnexpectedEOF"
proof (induction r st pos i syms rule: read_symbols.induct)
  case (1 r st pos i syms)
  from "1.prems" show ?case
    by (subst (asm) read_symbols.simps)
      (auto split: if_splits sum.splits outcome.splits
        dest: ReadFull_err binary_Read_err getString_err "1.IH")
qed

lemma read_sections_bound:
  "read_sections r st off i secs = Returned (secs', None) \<Longrightarrow> i < length secs \<Longrightarrow>
     off + 48 * (length secs - i) \<le> length r"
proof (induction r st off i secs rule: read_sections.induct)
  case (1 r st off i secs)
  from "1.prems" obtain chars header name where
    chars: "ReadFull r off 8 = Inr chars"
    and header: "binary_Read r (off + 8) sectionHeader_layout = Inr header"
    and name: "getString st chars = Returned (Inr name)"
    and rec: "read_sections r st (off + 8 + binary_Size sectionHeader_layout) (i + 1)
                (secs[i := Some (Section_of name header)]) = Returned (secs', None)"
    by (subst (asm) read_sections.simps) (auto split: sum.splits outcome.splits)
  from binary_Read_bound [OF header] have b48: "off + 48 \<le> length r" by simp
  show ?case
  proof (cases "i + 1 < length secs")
    case True
    with "1.IH" [OF "1.prems"(2) chars header name refl rec]
    have "off + 8 + binary_Size sectionHeader_layout + 48 * (length secs - (i + 1)) \<le> length r"
      by simp
    with True show ?thesis by simp
  next
    case False
    with "1.prems"(2) have "length secs - i = 1" by simp
    with b48 show ?thesis by simp
  qed
qed


lemma word_not_gt_0: "\<not> 0 < (w :: 'a::len word) \<longleftrightarrow> w = 0"
  by (simp add: word_gt_0)

text \<open>What \<^verbatim>\<open>NewFile\<close> can return once the header is read and its identifier is valid.\<close>

lemma NewFile_valid_outcome:
  assumes hdr: "binary_Read r 0 FileHeader_layout = Inr vs"
    and valid: "IsValidTargetID (FileHeader_of vs)"
  shows "NewFile r = Panic \<or>
         (\<exists>f err. NewFile r = Returned (Some f, err) \<and> FileHeader f = FileHeader_of vs \<and>
            (err = None \<or> err = Some EOF \<or> err = Some ErrUnexpectedEOF))"
proof -
  have body: "?thesis"
    if "(OptionalFileHeaderSize (FileHeader_of vs) = 0 \<and> off = 22 \<and> opt = None) \<or>
         (0 < OptionalFileHeaderSize (FileHeader_of vs) \<and>
          (\<exists>ws. binary_Read r 22 OptionalFileHeader_layout = Inr ws \<and>
                opt = Some (OptionalFileHeader_of ws)) \<and> off = 50)" for off :: nat and opt
    unfolding NewFile_body [OF hdr valid that]
    by (auto split: outcome.splits option.splits dest: read_sections_err read_symbols_err)
  show ?thesis
  proof (cases "0 < OptionalFileHeaderSize (FileHeader_of vs)")
    case False
    then show ?thesis using body [of 22 None] by (simp add: word_not_gt_0)
  next
    case True
    show ?thesis
    proof (cases "binary_Read r 22 OptionalFileHeader_layout")
      case (Inl e)
      then show ?thesis
        using NewFile_opt_fail [OF hdr valid True Inl] binary_Read_err [OF Inl] by auto
    next
      case (Inr ws)
      then show ?thesis using True body [of 50 "Some (OptionalFileHeader_of ws)"] by simp
    qed
  qed
qed

text \<open>What a successful decode went through.\<close>

lemma NewFile_successD:
  assumes "NewFile r = Returned (Some f, None)"
  shows "\<exists>vs.
           binary_Read r 0 FileHeader_layout = Inr vs \<and> IsValidTargetID (FileHeader_of vs) \<and>
           FileHeader f = FileHeader_of vs \<and>
           (0 < OptionalFileHeaderSize (FileHeader_of vs) \<longrightarrow> 50 \<le> length r) \<and>
           read_sections r
             (drop (unat (SymbolTableStartAddress (FileHeader_of vs))
                    + unat (NumSymbolTableEntries (FileHeader_of vs)) * 18) r)
             (if 0 < OptionalFileHeaderSize (FileHeader_of vs) then 50 else 22) 0
             (replicate (unat (NumSections (FileHeader_of vs))) None)
             = Returned (Sections f, None) \<and>
           read_symbols r
             (drop (unat (SymbolTableStartAddress (FileHeader_of vs))
                    + unat (NumSymbolTableEntries (FileHeader_of vs)) * 18) r)
             (unat (SymbolTableStartAddress (FileHeader_of vs)))
             (NumSymbolTableEntries (FileHeader_of vs)) []
             = Returned (symbols f, None)"
proof (cases "binary_Read r 0 FileHeader_layout")
  case (Inl e)
  with assms show ?thesis by (simp add: NewFile_header_fail)
next
  case (Inr vs)
  note hdr = this
  show ?thesis
  proof (cases "IsValidTargetID (FileHeader_of vs)")
    case False
    with assms hdr show ?thesis by (simp add: NewFile_invalid)
  next
    case valid: True
    have body: "?thesis"
      if "(OptionalFileHeaderSize (FileHeader_of vs) = 0 \<and> off = 22 \<and> opt = None) \<or>
           (0 < OptionalFileHeaderSize (FileHeader_of vs) \<and>
            (\<exists>ws. binary_Read r 22 OptionalFileHeader_layout = Inr ws \<and>
                  opt = Some (OptionalFileHeader_of ws)) \<and> off = 50)" for off :: nat and opt
    proof -
      from that have o: "off = (if 0 < OptionalFileHeaderSize (FileHeader_of vs) then 50 else 22)"
        and l: "0 < OptionalFileHeaderSize (FileHeader_of vs) \<longrightarrow> 50 \<le> length r"
        by (auto dest: binary_Read_bound)
      from assms show ?thesis
        unfolding NewFile_body [OF hdr valid that] o
        using hdr valid l
        by (auto split: outcome.splits option.splits prod.splits)
    qed
    show ?thesis
    proof (cases "0 < OptionalFileHeaderSize (FileHeader_of vs)")
      case False
      then show ?thesis using body [of 22 None] by (simp add: word_not_gt_0)
    next
      case True
      show ?thesis
      proof (cases "binary_Read r 22 OptionalFileHeader_layout")
        case (Inl e)
        with assms show ?thesis
          using NewFile_opt_fail [OF hdr valid True Inl] by simp
      next
        case (Inr ws)
        then show ?thesis using True body [of 50 "Some (OptionalFileHeader_of ws)"] by simp
      qed
    qed
  qed
qed

section \<open>Slots consumed by the symbol loop\<close>

lemma NewFile_slots:
  assumes "NewFile r = Returned (Some f, None)"
  shows "(word_of_nat (slots_consumed (symbols f)) :: 32 word)
           = NumSymbolTableEntries (FileHeader f) \<and>
         (slots_consumed (symbols f) = 0 \<or>
          unat (SymbolTableStartAddress (FileHeader f)) + 18 * slots_consumed (symbols f)
            \<le> length r)"
proof -
  from NewFile_successD [OF assms] obtain vs where
    h: "FileHeader f = FileHeader_of vs"
    and s: "read_symbols r
             (drop (unat (SymbolTableStartAddress (FileHeader_of vs))
                    + unat (NumSymbolTableEntries (FileHeader_of vs)) * 18) r)
             (unat (SymbolTableStartAddress (FileHeader_of vs)))
             (NumSymbolTableEntries (FileHeader_of vs)) []
             = Returned (symbols f, None)"
    by blast
  from read_symbols_slots [OF s] h show ?thesis
    by (auto simp add: slots_consumed_def)
qed

text \<open>
  On every byte source shorter than \<open>18 * 2^32\<close> bytes, a decode that succeeds has consumed
  exactly the declared number of slots.
\<close>

lemma NewFile_slots_bounded:
  assumes "NewFile r = Returned (Some f, None)" and "length r < 18 * 2 ^ 32"
  shows "slots_consumed (symbols f) = unat (NumSymbolTableEntries (FileHeader f))"
proof -
  from NewFile_slots [OF assms(1)] have
    w: "(word_of_nat (slots_consumed (symbols f)) :: 32 word)
           = NumSymbolTableEntries (FileHeader f)"
    and b: "slots_consumed (symbols f) = 0 \<or>
          unat (SymbolTableStartAddress (FileHeader f)) + 18 * slots_consumed (symbols f)
            \<le> length r"
    by simp_all
  from b assms(2) have "slots_consumed (symbols f) < 2 ^ 32" by auto
  then have "unat (word_of_nat (slots_consumed (symbols f)) :: 32 word)
               = slots_consumed (symbols f)"
    by (simp add: unat_of_nat)
  with w show ?thesis by simp
qed

text \<open>The equations that evaluate the decoder on a concrete byte source.\<close>

lemmas eval_NewFile =
  NewFile_def Let_def binary_Read_def ReadFull_def binary_Size_def
  FileHeader_layout_def FileHeader_of_def IsValidTargetID_def targetIDMap_def
  read_sections.simps read_symbols.simps symbol_layout_def AuxiliaryEntry_layout_def
  getString_def TrimRight_def Symbol_of_def AuxiliaryEntry_of_def new_File_def
  slots_consumed_def

text \<open>
  The example of the claim on a table that fits its declared count: three entries, the
  first symbol with an auxiliary record, the second without. Three slots are read, two
  symbols are produced, the first carries the auxiliary entry.
\<close>

lemma three_slots_two_symbols:
  "NewFile ([0xC2, 0, 0, 0, 0, 0, 0, 0, 22, 0, 0, 0, 3, 0, 0, 0, 0, 0, 0, 0, 0x97, 0] @
            [0x61, 0, 0, 0, 0, 0, 0, 0, 1, 0, 0, 0, 1, 0, 0, 0, 2, 1] @
            [4, 0, 0, 0, 0, 0, 0, 0, 0, 0, 0, 0, 0, 0, 0, 0, 0, 0] @
            [0x62, 0, 0, 0, 0, 0, 0, 0, 2, 0, 0, 0, 1, 0, 0, 0, 2, 0])
   = Returned
       (Some \<lparr>FileHeader =
                 \<lparr>Version = 0xC2, NumSections = 0, Timestamp = 0,
                  SymbolTableStartAddress = 22, NumSymbolTableEntries = 3,
                  OptionalFileHeaderSize = 0, Flags = 0, TargetID = 0x97\<rparr>,
               OptionalFileHeader = None, Sections = [],
               symbols =
                 [\<lparr>sym_Name = [0x61], Value = 1, SectionNumber = 1, StorageClass = 2,
                   NumAuxEntries = 1,
                   AuxiliaryEntry =
                     Some \<lparr>aux_Size = 4, aux_NumRelocationEntries = 0,
                            NumOfLineNumberEntries = 0\<rparr>\<rparr>,
                  \<lparr>sym_Name = [0x62], Value = 2, SectionNumber = 1, StorageClass = 2,
                   NumAuxEntries = 0, AuxiliaryEntry = None\<rparr>]\<rparr>,
        None)"
  by (simp add: eval_NewFile)

lemma zeros_take_drop:
  assumes "\<forall>j. pos0 \<le> j \<and> j < length r \<longrightarrow> r ! j = (0::byte)"
    and "pos0 \<le> pos" and "pos + n \<le> length r"
  shows "take n (drop pos r) = replicate n 0"
proof (rule nth_equalityI)
  show "length (take n (drop pos r)) = length (replicate n (0::byte))"
    using assms(3) by simp
next
  fix i assume "i < length (take n (drop pos r))"
  then have "i < n" by simp
  then show "take n (drop pos r) ! i = replicate n (0::byte) ! i"
    using assms by simp
qed

lemma replicate_8_zeros: "replicate 8 (0::byte) = [0, 0, 0, 0, 0, 0, 0, 0]"
  by (simp add: numeral_eq_Suc)

lemma decode_symbol_zeros: "decode symbol_layout (replicate 10 0) = [0, 0, 0, 0]"
proof -
  have "replicate 10 (0::byte) = [0, 0, 0, 0, 0, 0, 0, 0, 0, 0]"
    by (simp add: numeral_eq_Suc)
  then show ?thesis by (simp add: symbol_layout_def)
qed

lemma getString_zeros:
  assumes "st \<noteq> []" and "st ! 0 = 0"
  shows "getString st (replicate 8 0) = Returned (Inr [])"
proof -
  from assms obtain rest where "st = 0 # rest" by (cases st) auto
  then show ?thesis
    by (simp add: getString_def Let_def replicate_8_zeros)
qed

lemma read_symbols_zero_run:
  assumes z: "\<forall>j. pos0 \<le> j \<and> j < length r \<longrightarrow> r ! j = 0"
    and g: "getString st (replicate 8 0) = Returned (Inr [])"
  shows "pos0 \<le> pos \<Longrightarrow> length r = pos + 18 * k \<Longrightarrow> unat i = k \<Longrightarrow>
     \<exists>syms'. read_symbols r st pos i syms = Returned (syms', None) \<and>
        slots_consumed syms' = slots_consumed syms + k"
proof (induction k arbitrary: pos i syms)
  case 0
  then have "i = 0" by (simp add: unat_eq_0)
  then show ?case by (simp add: read_symbols.simps)
next
  case (Suc k)
  from Suc.prems(3) have i: "0 < i" by (auto simp add: word_gt_0)
  from Suc.prems have chars: "ReadFull r pos 8 = Inr (replicate 8 0)"
    using zeros_take_drop [OF z, of pos 8] by (simp add: ReadFull_ok)
  from Suc.prems have "take 10 (drop (pos + 8) r) = replicate 10 0"
    using zeros_take_drop [OF z, of "pos + 8" 10] by simp
  with Suc.prems have symb: "binary_Read r (pos + 8) symbol_layout = Inr [0, 0, 0, 0]"
    by (simp add: binary_Read_def ReadFull_ok decode_symbol_zeros)
  have step: "read_symbols r st pos i syms
      = read_symbols r st (pos + 18) (i - 1) (syms @ [Symbol_of [] [0, 0, 0, 0] None])"
    by (subst read_symbols.simps) (simp add: i chars symb g add.commute)
  from Suc.prems(3) have "unat (i - 1) = k"
    using i by (simp add: unat_minus_one word_gt_0)
  from Suc.IH [OF _ _ this, of "pos + 18" "syms @ [Symbol_of [] [0, 0, 0, 0] None]"] Suc.prems
  obtain syms' where
    "read_symbols r st (pos + 18) (i - 1) (syms @ [Symbol_of [] [0, 0, 0, 0] None])
       = Returned (syms', None)"
    "slots_consumed syms' = slots_consumed (syms @ [Symbol_of [] [0, 0, 0, 0] None]) + k"
    by auto
  with step show ?case by (auto simp add: slots_consumed_snoc)
qed


text \<open>
  The wrapped counter does not always end in an error. A header that declares one entry,
  a symbol with auxiliary count 1 and \<open>18 * 2^32\<close> zero bytes decode without error: the
  body's \<^verbatim>\<open>i--\<close> brings the counter to 0, the loop header's \<^verbatim>\<open>i--\<close> wraps it to
  \<open>2^32 - 1\<close>, and that many further slots are read. The decode succeeds having consumed
  \<open>2^32 + 1\<close> slots for a declared count of 1.
\<close>

lemma wrapped_counter_succeeds:
  "\<exists>f. NewFile ([0xC2, 0, 0, 0, 0, 0, 0, 0, 22, 0, 0, 0, 1, 0, 0, 0, 0, 0, 0, 0, 0x97, 0] @
               [0, 0, 0, 0, 0, 0, 0, 0, 0, 0, 0, 0, 0, 0, 0, 0, 0, 1] @
               replicate (18 * 2 ^ 32) 0) = Returned (Some f, None) \<and>
       NumSymbolTableEntries (FileHeader f) = 1 \<and>
       slots_consumed (symbols f) = 2 ^ 32 + 1"
proof -
  define tail :: "byte list" where "tail = replicate (18 * 2 ^ 32) 0"
  define r where
    "r = [0xC2, 0, 0, 0, 0, 0, 0, 0, 22, 0, 0, 0, 1, 0, 0, 0, 0, 0, 0, 0, 0x97, 0] @
         [0, 0, 0, 0, 0, 0, 0, 0, 0, 0, 0, 0, 0, 0, 0, 0, 0, 1 :: byte] @ tail"
  have len_tail: "length tail = 77309411328" by (simp add: tail_def)
  have nth_tail: "j < length tail \<Longrightarrow> tail ! j = 0" for j by (simp add: tail_def)
  have tail_ne: "tail \<noteq> []" using len_tail by auto
  have len_r: "length r = 77309411368" by (simp add: r_def len_tail)
  define vs :: "nat list" where "vs = [0xC2, 0, 0, 22, 1, 0, 0, 0x97]"
  have hdr: "binary_Read r 0 FileHeader_layout = Inr vs"
    by (simp add: binary_Read_def ReadFull_def Let_def r_def len_tail FileHeader_layout_def
        binary_Size_def vs_def)
  have h: "FileHeader_of vs
      = \<lparr>Version = 0xC2, NumSections = 0, Timestamp = 0, SymbolTableStartAddress = 22,
         NumSymbolTableEntries = 1, OptionalFileHeaderSize = 0, Flags = 0, TargetID = 0x97\<rparr>"
    by (simp add: FileHeader_of_def vs_def)
  have valid: "IsValidTargetID (FileHeader_of vs)"
    by (simp add: h IsValidTargetID_iff)
  have st: "drop 40 r = tail" by (simp add: r_def)
  have z: "\<forall>j. 40 \<le> j \<and> j < length r \<longrightarrow> r ! j = 0"
  proof (intro allI impI)
    fix j assume j: "40 \<le> j \<and> j < length r"
    then have "r ! j = tail ! (j - 40)"
      using nth_drop [where n = 40 and xs = r and i = "j - 40"] by (simp add: st len_r)
    moreover from j have "j - 40 < length tail" using len_r len_tail by linarith
    ultimately show "r ! j = 0" using nth_tail [of "j - 40"] by simp
  qed
  have g: "getString tail (replicate 8 0) = Returned (Inr [])"
    using getString_zeros [OF tail_ne] nth_tail [of 0] len_tail by simp
  have chars: "ReadFull r 22 8 = Inr (replicate 8 0)"
    by (simp add: ReadFull_def Let_def r_def len_tail replicate_8_zeros)
  have symb: "binary_Read r 30 symbol_layout = Inr [0, 0, 0, 1]"
    by (simp add: binary_Read_def ReadFull_def Let_def r_def len_tail symbol_layout_def
        binary_Size_def)
  have "take 18 (drop 40 r) = replicate 18 0"
    using zeros_take_drop [OF z, of 40 18] by (simp add: len_r)
  then obtain aux where aux: "binary_Read r 40 AuxiliaryEntry_layout = Inr aux"
    by (simp add: binary_Read_def ReadFull_ok len_r)
  define s1 where "s1 = Symbol_of [] [0, 0, 0, 1] (Some (AuxiliaryEntry_of aux))"
  have first: "read_symbols r tail 22 1 [] = read_symbols r tail 58 (- 1) [s1]"
    by (subst read_symbols.simps) (simp add: chars symb g aux s1_def)
  have u: "unat (- 1 :: 32 word) = 4294967295"
    by (simp add: unsigned_minus_1_eq_mask mask_eq_exp_minus_1)
  from read_symbols_zero_run [OF z g, of 58 4294967295 "- 1" "[s1]"] u
  obtain syms' where run: "read_symbols r tail 58 (- 1) [s1] = Returned (syms', None)"
    and sl: "slots_consumed syms' = slots_consumed [s1] + 4294967295"
    by (auto simp add: len_r)
  have secs: "read_sections r tail 22 0 [] = Returned ([], None)"
    by (simp add: read_sections.simps)
  have "NewFile r = Returned (Some \<lparr>FileHeader = FileHeader_of vs,
            OptionalFileHeader = None, Sections = [], symbols = syms'\<rparr>, None)"
    using NewFile_body [OF hdr valid, of 22 None]
    by (simp add: h st secs first run)
  moreover have "slots_consumed syms' = 2 ^ 32 + 1"
    using sl by (simp add: slots_consumed_def s1_def)
  ultimately show ?thesis
    unfolding r_def tail_def by (simp add: h)
qed

text \<open>
  Claim C2. The claim has the decoder consume exactly the declared number of slots. The
  loop counts an auxiliary record by a second \<^verbatim>\<open>i--\<close> on the unsigned counter, with no
  check that a slot is left. With three declared entries, of which the first symbol has
  auxiliary count 1 and so does the second, the second symbol's auxiliary record is read
  from a fourth slot, the counter wraps from 0 to \<open>2^32 - 1\<close>, and the loop goes on
  reading until the bytes run out: four slots are consumed for a declared count of
  three, and the decode ends with \<^verbatim>\<open>io.EOF\<close>.
\<close>

theorem aux_on_last_slot_overruns:
  "NewFile ([0xC2, 0, 0, 0, 0, 0, 0, 0, 22, 0, 0, 0, 3, 0, 0, 0, 0, 0, 0, 0, 0x97, 0] @
            [0x61, 0, 0, 0, 0, 0, 0, 0, 1, 0, 0, 0, 1, 0, 0, 0, 2, 1] @
            [4, 0, 0, 0, 0, 0, 0, 0, 0, 0, 0, 0, 0, 0, 0, 0, 0, 0] @
            [0x62, 0, 0, 0, 0, 0, 0, 0, 2, 0, 0, 0, 1, 0, 0, 0, 2, 1] @
            [8, 0, 0, 0, 0, 0, 0, 0, 0, 0, 0, 0, 0, 0, 0, 0, 0, 0])
   = Returned
       (Some \<lparr>FileHeader =
                 \<lparr>Version = 0xC2, NumSections = 0, Timestamp = 0,
                  SymbolTableStartAddress = 22, NumSymbolTableEntries = 3,
                  OptionalFileHeaderSize = 0, Flags = 0, TargetID = 0x97\<rparr>,
               OptionalFileHeader = None, Sections = [],
               symbols =
                 [\<lparr>sym_Name = [0x61], Value = 1, SectionNumber = 1, StorageClass = 2,
                   NumAuxEntries = 1,
                   AuxiliaryEntry =
                     Some \<lparr>aux_Size = 4, aux_NumRelocationEntries = 0,
                            NumOfLineNumberEntries = 0\<rparr>\<rparr>,
                  \<lparr>sym_Name = [0x62], Value = 2, SectionNumber = 1, StorageClass = 2,
                   NumAuxEntries = 1,
                   AuxiliaryEntry =
                     Some \<lparr>aux_Size = 8, aux_NumRelocationEntries = 0,
                            NumOfLineNumberEntries = 0\<rparr>\<rparr>]\<rparr>,
        Some EOF) \<and>
   slots_consumed
     [\<lparr>sym_Name = [0x61], Value = 1, SectionNumber = 1, StorageClass = 2,
       NumAuxEntries = 1,
       AuxiliaryEntry =
         Some \<lparr>aux_Size = 4, aux_NumRelocationEntries = 0, NumOfLineNumberEntries = 0\<rparr>\<rparr>,
      \<lparr>sym_Name = [0x62], Value = 2, SectionNumber = 1, StorageClass = 2,
       NumAuxEntries = 1,
       AuxiliaryEntry =
         Some \<lparr>aux_Size = 8, aux_NumRelocationEntries = 0, NumOfLineNumberEntries = 0\<rparr>\<rparr>]
     = 4"
  by (simp add: eval_NewFile word_gt_0)

section \<open>Truncated input\<close>

lemma header_short: "length r < 22 \<Longrightarrow>
   NewFile r = Returned (Some new_File, Some (if r = [] then EOF else ErrUnexpectedEOF))"
  by (simp add: NewFile_header_fail binary_Read_def ReadFull_def Let_def)

text \<open>
  What holds of a byte source that is cut short of a fixed record: of the file header
  (fewer than 22 bytes), or, with a complete header and a valid identifier, of the
  optional header and the section headers the header declares (48 bytes each), or of
  the symbol-table slots it declares. \<^verbatim>\<open>coff.NewFile\<close> never returns a nil error, so
  no partial section list is handed back as a successful decode; and when it returns,
  it returns the file built so far together with \<^verbatim>\<open>io.EOF\<close> or
  \<^verbatim>\<open>io.ErrUnexpectedEOF\<close>, the two errors of a short read. It need not return: a
  name reference of an earlier, complete record may lie beyond the string table.
\<close>

lemma truncated_input_fails:
  assumes "length r < 22 \<or>
     (\<exists>vs. binary_Read r 0 FileHeader_layout = Inr vs \<and> IsValidTargetID (FileHeader_of vs) \<and>
        (length r < 22 + (if 0 < OptionalFileHeaderSize (FileHeader_of vs) then 28 else 0)
                      + 48 * unat (NumSections (FileHeader_of vs)) \<or>
         0 < NumSymbolTableEntries (FileHeader_of vs) \<and>
         length r < unat (SymbolTableStartAddress (FileHeader_of vs))
                      + 18 * unat (NumSymbolTableEntries (FileHeader_of vs))))"
  shows "(\<forall>f. NewFile r \<noteq> Returned (f, None)) \<and>
         (NewFile r \<noteq> Panic \<longrightarrow>
            (\<exists>f e. NewFile r = Returned (Some f, Some e) \<and> (e = EOF \<or> e = ErrUnexpectedEOF)))"
proof -
  have nosucc: "NewFile r \<noteq> Returned (fo, None)" for fo
  proof
    assume a: "NewFile r = Returned (fo, None)"
    show False
    proof (cases fo)
      case None
      from assms a None show False
        by (auto simp add: header_short dest: NewFile_valid_nonnil)
    next
      case (Some f)
      with a have s: "NewFile r = Returned (Some f, None)" by simp
      from NewFile_successD [OF s] obtain vs where
        hdr: "binary_Read r 0 FileHeader_layout = Inr vs"
        and h: "FileHeader f = FileHeader_of vs"
        and opt: "0 < OptionalFileHeaderSize (FileHeader_of vs) \<longrightarrow> 50 \<le> length r"
        and secs: "read_sections r
             (drop (unat (SymbolTableStartAddress (FileHeader_of vs))
                    + unat (NumSymbolTableEntries (FileHeader_of vs)) * 18) r)
             (if 0 < OptionalFileHeaderSize (FileHeader_of vs) then 50 else 22) 0
             (replicate (unat (NumSections (FileHeader_of vs))) None)
             = Returned (Sections f, None)"
        by blast
      from binary_Read_bound [OF hdr] have l22: "22 \<le> length r" by simp
      have fit_secs: "22 + (if 0 < OptionalFileHeaderSize (FileHeader_of vs) then 28 else 0)
                      + 48 * unat (NumSections (FileHeader_of vs)) \<le> length r"
      proof (cases "0 < unat (NumSections (FileHeader_of vs))")
        case True
        with read_sections_bound [OF secs] show ?thesis by (simp split: if_splits)
      next
        case False
        with l22 opt show ?thesis by simp
      qed
      have fit_syms: "0 < NumSymbolTableEntries (FileHeader_of vs) \<Longrightarrow>
          unat (SymbolTableStartAddress (FileHeader_of vs))
            + 18 * unat (NumSymbolTableEntries (FileHeader_of vs)) \<le> length r"
      proof -
        assume pos: "0 < NumSymbolTableEntries (FileHeader_of vs)"
        from NewFile_slots [OF s] h have
          w: "(word_of_nat (slots_consumed (symbols f)) :: 32 word)
                = NumSymbolTableEntries (FileHeader_of vs)"
          and b: "slots_consumed (symbols f) = 0 \<or>
              unat (SymbolTableStartAddress (FileHeader_of vs))
                + 18 * slots_consumed (symbols f) \<le> length r"
          by simp_all
        from w have "unat (NumSymbolTableEntries (FileHeader_of vs))
            = slots_consumed (symbols f) mod 2 ^ 32"
          using unat_of_nat [of "slots_consumed (symbols f)", where 'a = 32] by simp
        then have le: "unat (NumSymbolTableEntries (FileHeader_of vs))
            \<le> slots_consumed (symbols f)"
          by simp
        have "slots_consumed (symbols f) \<noteq> 0"
        proof
          assume "slots_consumed (symbols f) = 0"
          with w have "NumSymbolTableEntries (FileHeader_of vs) = 0" by simp
          with pos show False by simp
        qed
        with b le show ?thesis by auto
      qed
      from assms l22 hdr fit_secs fit_syms show False by auto
    qed
  qed
  have "\<exists>f e. NewFile r = Returned (Some f, Some e) \<and> (e = EOF \<or> e = ErrUnexpectedEOF)"
    if np: "NewFile r \<noteq> Panic"
  proof (cases "length r < 22")
    case True
    then show ?thesis by (auto simp add: header_short)
  next
    case False
    with assms obtain vs where hdr: "binary_Read r 0 FileHeader_layout = Inr vs"
      and valid: "IsValidTargetID (FileHeader_of vs)"
      by auto
    from NewFile_valid_outcome [OF hdr valid] np nosucc show ?thesis by auto
  qed
  with nosucc show ?thesis by blast
qed


text \<open>
  A source cut in the middle of its only section header (30 of the 40 bytes after the
  name field): the section list returned holds a nil entry, with
  \<^verbatim>\<open>io.ErrUnexpectedEOF\<close>.
\<close>

lemma truncated_section_header_example:
  "NewFile ([0xC2, 0, 1, 0, 0, 0, 0, 0, 70, 0, 0, 0, 0, 0, 0, 0, 0, 0, 0, 0, 0x97, 0] @
            [0x2E, 0x74, 0x65, 0x78, 0x74, 0, 0, 0] @
            [0, 1, 0, 0, 0, 1, 0, 0, 16, 0, 0, 0, 70, 0, 0, 0, 0, 0, 0, 0,
             0, 0, 0, 0, 0, 0, 0, 0, 0, 0])
   = Returned
       (Some \<lparr>FileHeader =
                 \<lparr>Version = 0xC2, NumSections = 1, Timestamp = 0,
                  SymbolTableStartAddress = 70, NumSymbolTableEntries = 0,
                  OptionalFileHeaderSize = 0, Flags = 0, TargetID = 0x97\<rparr>,
               OptionalFileHeader = None, Sections = [None], symbols = []\<rparr>,
        Some ErrUnexpectedEOF)"
proof -
  let ?r = "[0xC2, 0, 1, 0, 0, 0, 0, 0, 70, 0, 0, 0, 0, 0, 0, 0, 0, 0, 0, 0, 0x97, 0] @
            [0x2E, 0x74, 0x65, 0x78, 0x74, 0, 0, 0] @
            [0, 1, 0, 0, 0, 1, 0, 0, 16, 0, 0, 0, 70, 0, 0, 0, 0, 0, 0, 0,
             0, 0, 0, 0, 0, 0, 0, 0, 0, 0 :: byte]"
  have "length ?r < 22 \<or>
     (\<exists>vs. binary_Read ?r 0 FileHeader_layout = Inr vs \<and> IsValidTargetID (FileHeader_of vs) \<and>
        (length ?r < 22 + (if 0 < OptionalFileHeaderSize (FileHeader_of vs) then 28 else 0)
                      + 48 * unat (NumSections (FileHeader_of vs)) \<or>
         0 < NumSymbolTableEntries (FileHeader_of vs) \<and>
         length ?r < unat (SymbolTableStartAddress (FileHeader_of vs))
                      + 18 * unat (NumSymbolTableEntries (FileHeader_of vs))))"
    by (simp add: binary_Read_def ReadFull_def Let_def binary_Size_def FileHeader_layout_def
        FileHeader_of_def IsValidTargetID_def targetIDMap_def)
  from truncated_input_fails [OF this] have "\<forall>f. NewFile ?r \<noteq> Returned (f, None)"
    by blast
  then show ?thesis
    by (simp add: eval_NewFile sectionHeader_layout_def)
qed

text \<open>
  Claim C8. The claim has every byte source that is cut in the middle of a record fail
  with the error of a truncated read. The 88-byte source below declares two sections
  and is cut in the middle of the second section header (18 of its 48 bytes). The name
  field of the first, complete section header refers to offset 4 of the string table,
  and the string table, which would start at byte 118, is cut off with the rest: empty.
  \<^verbatim>\<open>getString\<close> evaluates \<^verbatim>\<open>stringTable[4:]\<close> on it and panics before the second
  header is read, so \<^verbatim>\<open>coff.NewFile\<close> returns no error at all.
\<close>

theorem truncated_source_panics:
  "length ([0xC2, 0, 2, 0, 0, 0, 0, 0, 118, 0, 0, 0, 0, 0, 0, 0, 0, 0, 0, 0, 0x97, 0] @
           [0, 0, 0, 0, 4, 0, 0, 0] @
           [0, 1, 0, 0, 0, 1, 0, 0, 16, 0, 0, 0, 118, 0, 0, 0, 0, 0, 0, 0,
            0, 0, 0, 0, 0, 0, 0, 0, 0, 0, 0, 0, 0x20, 0, 0, 0, 0, 0, 0, 0] @
           [0x2E, 0x74, 0x65, 0x78, 0x74, 0, 0, 0] @
           [0, 2, 0, 0, 0, 2, 0, 0, 8, 0 :: byte]) = 88 \<and>
   NewFile ([0xC2, 0, 2, 0, 0, 0, 0, 0, 118, 0, 0, 0, 0, 0, 0, 0, 0, 0, 0, 0, 0x97, 0] @
            [0, 0, 0, 0, 4, 0, 0, 0] @
            [0, 1, 0, 0, 0, 1, 0, 0, 16, 0, 0, 0, 118, 0, 0, 0, 0, 0, 0, 0,
             0, 0, 0, 0, 0, 0, 0, 0, 0, 0, 0, 0, 0x20, 0, 0, 0, 0, 0, 0, 0] @
            [0x2E, 0x74, 0x65, 0x78, 0x74, 0, 0, 0] @
            [0, 2, 0, 0, 0, 2, 0, 0, 8, 0]) = Panic"
  by (simp add: eval_NewFile sectionHeader_layout_def)

section \<open>The file returned with an error\<close>

text \<open>
  Claim C10. Whenever \<^verbatim>\<open>coff.NewFile\<close> returns, the file is nil exactly when the error
  is \<^verbatim>\<open>ErrInvalidTargetID\<close>, and that happens only for a complete header with an
  unknown identifier. Every other error comes with a non-nil file: it is \<^verbatim>\<open>io.EOF\<close> or
  \<^verbatim>\<open>io.ErrUnexpectedEOF\<close>, the file carries the decoded header whenever the header was
  read, and it is the zero \<^verbatim>\<open>File\<close> when the header itself could not be read.
\<close>

theorem NewFile_nil_only_for_invalid_target:
  assumes "NewFile r = Returned (fo, err)"
  shows "(fo = None \<longleftrightarrow> err = Some ErrInvalidTargetID) \<and>
         (fo = None \<longrightarrow>
            (\<exists>vs. binary_Read r 0 FileHeader_layout = Inr vs \<and>
                  \<not> IsValidTargetID (FileHeader_of vs))) \<and>
         (\<forall>f e. fo = Some f \<and> err = Some e \<longrightarrow>
            (e = EOF \<or> e = ErrUnexpectedEOF) \<and>
            (\<forall>vs. binary_Read r 0 FileHeader_layout = Inr vs
                    \<longrightarrow> FileHeader f = FileHeader_of vs) \<and>
            ((\<exists>e0. binary_Read r 0 FileHeader_layout = Inl e0) \<longrightarrow> f = new_File))"
proof (cases "binary_Read r 0 FileHeader_layout")
  case (Inl e0)
  with assms binary_Read_err [OF Inl] show ?thesis
    by (auto simp add: NewFile_header_fail)
next
  case (Inr vs)
  show ?thesis
  proof (cases "IsValidTargetID (FileHeader_of vs)")
    case False
    with assms Inr show ?thesis by (simp add: NewFile_invalid)
  next
    case True
    from NewFile_valid_outcome [OF Inr True] assms Inr True show ?thesis by auto
  qed
qed

text \<open>
  A header read error, an invalid identifier, a section read error, a symbol read error
  and a name-resolution error (an unterminated string reference), in this order.
\<close>

theorem NewFile_nil_only_for_invalid_target_witness:
  "NewFile [0xC2, 0, 0] = Returned (Some new_File, Some ErrUnexpectedEOF) \<and>
   NewFile [0xC2, 0, 0, 0, 0, 0, 0, 0, 22, 0, 0, 0, 0, 0, 0, 0, 0, 0, 0, 0, 0x96, 0]
     = Returned (None, Some ErrInvalidTargetID) \<and>
   (\<exists>f. NewFile ([0xC2, 0, 1, 0, 0, 0, 0, 0, 70, 0, 0, 0, 0, 0, 0, 0, 0, 0, 0, 0, 0x97, 0] @
                [0x2E, 0x74, 0x65, 0x78, 0x74, 0, 0, 0])
      = Returned (Some f, Some EOF) \<and> Sections f = [None]) \<and>
   (\<exists>f. NewFile ([0xC2, 0, 0, 0, 0, 0, 0, 0, 22, 0, 0, 0, 1, 0, 0, 0, 0, 0, 0, 0, 0x97, 0] @
                [0x61, 0, 0, 0, 0, 0, 0, 0, 1, 0, 0, 0, 1])
      = Returned (Some f, Some ErrUnexpectedEOF) \<and> NumSymbolTableEntries (FileHeader f) = 1) \<and>
   (\<exists>f. NewFile ([0xC2, 0, 0, 0, 0, 0, 0, 0, 22, 0, 0, 0, 1, 0, 0, 0, 0, 0, 0, 0, 0x97, 0] @
                [0, 0, 0, 0, 0, 0, 0, 0, 1, 0, 0, 0, 1, 0, 0, 0, 2, 0] @ [0x61])
      = Returned (Some f, Some EOF) \<and> NumSymbolTableEntries (FileHeader f) = 1)"
proof -
  have a: "NewFile [0xC2, 0, 0] = Returned (Some new_File, Some ErrUnexpectedEOF)"
    by (simp add: eval_NewFile)
  have b: "NewFile [0xC2, 0, 0, 0, 0, 0, 0, 0, 22, 0, 0, 0, 0, 0, 0, 0, 0, 0, 0, 0, 0x96, 0]
     = Returned (None, Some ErrInvalidTargetID)"
    by (simp add: eval_NewFile)
  show ?thesis
    using NewFile_nil_only_for_invalid_target [OF a] NewFile_nil_only_for_invalid_target [OF b]
    by (simp add: eval_NewFile sectionHeader_layout_def)
qed

section \<open>The unified layer\<close>

text \<open>
  The loop over the COFF symbols, up to index \<open>n\<close>: the elements below \<open>n\<close> are
  filled in, the others are still the zero value.
\<close>

lemma copy_coff_symbols_fold:
  fixes syms :: "Symbol list"
  defines "step \<equiv> (\<lambda>out i.
              (let out = out[i := (out ! i)\<lparr>dbg_Name := sym_Name (syms ! i)\<rparr>];
                   out = out[i := (out ! i)\<lparr>dbg_Value := ucast (Value (syms ! i))\<rparr>]
               in (case AuxiliaryEntry (syms ! i) of
                     Some aux \<Rightarrow> out[i := (out ! i)\<lparr>dbg_Size := ucast (aux_Size aux)\<rparr>]
                   | None \<Rightarrow> out)))"
  assumes "n \<le> length syms"
  shows "length (foldl step (replicate (length syms) new_debug_Symbol) [0..<n]) = length syms \<and>
     (\<forall>i<n. foldl step (replicate (length syms) new_debug_Symbol) [0..<n] ! i =
        \<lparr>dbg_Name = sym_Name (syms ! i), dbg_Value = ucast (Value (syms ! i)),
         dbg_Size = (case AuxiliaryEntry (syms ! i) of None \<Rightarrow> 0
                     | Some aux \<Rightarrow> ucast (aux_Size aux))\<rparr>) \<and>
     (\<forall>i. n \<le> i \<and> i < length syms \<longrightarrow>
        foldl step (replicate (length syms) new_debug_Symbol) [0..<n] ! i = new_debug_Symbol)"
  using assms(2)
proof (induction n)
  case 0
  then show ?case by simp
next
  case (Suc n)
  let ?out = "foldl step (replicate (length syms) new_debug_Symbol) [0..<n]"
  from Suc have IH: "length ?out = length syms"
    "\<forall>i<n. ?out ! i =
        \<lparr>dbg_Name = sym_Name (syms ! i), dbg_Value = ucast (Value (syms ! i)),
         dbg_Size = (case AuxiliaryEntry (syms ! i) of None \<Rightarrow> 0
                     | Some aux \<Rightarrow> ucast (aux_Size aux))\<rparr>"
    "\<forall>i. n \<le> i \<and> i < length syms \<longrightarrow> ?out ! i = new_debug_Symbol"
    by simp_all
  have f: "foldl step (replicate (length syms) new_debug_Symbol) [0..<Suc n] = step ?out n"
    by simp
  from Suc.prems have n: "n < length syms" by simp
  with IH(3) have outn: "?out ! n = new_debug_Symbol" by simp
  have len: "length (step ?out n) = length syms"
    using IH(1) by (simp add: step_def Let_def split: option.splits)
  have at_n: "step ?out n ! n =
        \<lparr>dbg_Name = sym_Name (syms ! n), dbg_Value = ucast (Value (syms ! n)),
         dbg_Size = (case AuxiliaryEntry (syms ! n) of None \<Rightarrow> 0
                     | Some aux \<Rightarrow> ucast (aux_Size aux))\<rparr>"
    using IH(1) n outn by (simp add: step_def Let_def new_debug_Symbol_def split: option.splits)
  have other: "i \<noteq> n \<Longrightarrow> step ?out n ! i = ?out ! i" for i
    by (simp add: step_def Let_def split: option.splits)
  show ?case
    unfolding f
  proof (intro conjI allI impI)
    show "length (step ?out n) = length syms" by (rule len)
  next
    fix i assume "i < Suc n"
    then show "step ?out n ! i =
        \<lparr>dbg_Name = sym_Name (syms ! i), dbg_Value = ucast (Value (syms ! i)),
         dbg_Size = (case AuxiliaryEntry (syms ! i) of None \<Rightarrow> 0
                     | Some aux \<Rightarrow> ucast (aux_Size aux))\<rparr>"
      using at_n other [of i] IH(2) by (cases "i = n") auto
  next
    fix i assume "Suc n \<le> i \<and> i < length syms"
    then show "step ?out n ! i = new_debug_Symbol"
      using other [of i] IH(3) by auto
  qed
qed

lemma copy_coff_symbols_nth:
  "length (copy_coff_symbols syms) = length syms \<and>
   (\<forall>i<length syms. copy_coff_symbols syms ! i =
        \<lparr>dbg_Name = sym_Name (syms ! i), dbg_Value = ucast (Value (syms ! i)),
         dbg_Size = (case AuxiliaryEntry (syms ! i) of None \<Rightarrow> 0
                     | Some aux \<Rightarrow> ucast (aux_Size aux))\<rparr>)"
  using copy_coff_symbols_fold [of "length syms" syms]
  by (simp add: copy_coff_symbols_def)


lemma unat_ucast_32_64: "unat (ucast (x :: 32 word) :: 64 word) = unat x"
proof -
  have "unat x < 2 ^ 32" using unsigned_less [of x, where 'a = nat] by simp
  then have "unat x < 2 ^ 64" by simp
  then show ?thesis by (simp add: unsigned_ucast_eq take_bit_nat_eq_self)
qed

text \<open>
  Claim C6, as the claim states it, fails where the ELF decoder accepts the byte source
  but the symbol table of the ELF file cannot be read (\<^verbatim>\<open>ef.Symbols()\<close> returns an
  error, as for a file without a symbol section): \<^verbatim>\<open>debug.NewFile\<close> then returns the
  file of type ELF together with that error, and \<^verbatim>\<open>debug.Open\<close> returns the nil file
  with it.
\<close>

theorem elf_symbols_failure_counterexample:
  "debug_NewFile
     (\<lambda>r. Inr \<lparr>elf_Sections = [\<lparr>elf_Name = [0x2E, 0x74], elf_Addr = 0x100, elf_Size = 16\<rparr>],
               elf_Symbols = Inl ''no symbol section''\<rparr>)
     [0x7F, 0x45, 0x4C, 0x46]
   = Returned
       (Some \<lparr>FileType = FileTypeELF,
               dbg_Sections = [elfSection \<lparr>elf_Name = [0x2E, 0x74], elf_Addr = 0x100,
                                           elf_Size = 16\<rparr>],
               dbg_Symbols = [], closer = None\<rparr>,
        Some (ElfError ''no symbol section'')) \<and>
   debug_Open (\<lambda>name. Inr [0x7F, 0x45, 0x4C, 0x46])
     (\<lambda>r. Inr \<lparr>elf_Sections = [\<lparr>elf_Name = [0x2E, 0x74], elf_Addr = 0x100, elf_Size = 16\<rparr>],
               elf_Symbols = Inl ''no symbol section''\<rparr>)
     ''a.out''
   = Returned (None, Some (ElfError ''no symbol section''))"
  by (simp add: debug_NewFile_def debug_NewFile_with_def debug_Open_def Let_def
      new_debug_File_def)

text \<open>
  Claim C6, amended. When the ELF decoder accepts the byte source, the COFF decoder is
  not invoked: the result of \<^verbatim>\<open>debug.NewFile\<close> is the same whatever the COFF decoder
  would do (return, fail or panic), so the COFF decoder has a say only after ELF
  decoding has failed. When in addition \<^verbatim>\<open>ef.Symbols()\<close> returns no error,
  \<^verbatim>\<open>debug.NewFile\<close> and \<^verbatim>\<open>debug.Open\<close> return a file of type ELF, with the ELF
  sections, and a nil error. When \<^verbatim>\<open>ef.Symbols()\<close> returns an error,
  \<^verbatim>\<open>debug.NewFile\<close> returns the file of type ELF together with that error and
  \<^verbatim>\<open>debug.Open\<close> returns the nil file with that error.
\<close>

theorem elf_first:
  assumes "elf_NewFile r = Inr ef"
  shows "(\<forall>c1 c2. debug_NewFile_with elf_NewFile c1 r = debug_NewFile_with elf_NewFile c2 r) \<and>
         (\<forall>syms. elf_Symbols ef = Inr syms \<longrightarrow>
            (\<exists>f. debug_NewFile elf_NewFile r = Returned (Some f, None) \<and>
                 FileType f = FileTypeELF \<and>
                 dbg_Sections f = map elfSection (elf_Sections ef)) \<and>
            (\<forall>name. os_Open name = Inr r \<longrightarrow>
               (\<exists>f. debug_Open os_Open elf_NewFile name = Returned (Some f, None) \<and>
                    FileType f = FileTypeELF \<and>
                    dbg_Sections f = map elfSection (elf_Sections ef)))) \<and>
         (\<forall>msg. elf_Symbols ef = Inl msg \<longrightarrow>
            (\<exists>f. debug_NewFile elf_NewFile r = Returned (Some f, Some (ElfError msg)) \<and>
                 FileType f = FileTypeELF \<and>
                 dbg_Sections f = map elfSection (elf_Sections ef)) \<and>
            (\<forall>name. os_Open name = Inr r \<longrightarrow>
               debug_Open os_Open elf_NewFile name = Returned (None, Some (ElfError msg))))"
  using assms
  by (auto simp add: debug_NewFile_with_def debug_NewFile_def debug_Open_def Let_def
      split: sum.splits)

text \<open>
  An ELF decoder that accepts and whose symbols can be read, beside a COFF decoder that
  would panic; and the same source opened by path.
\<close>

theorem elf_first_witness:
  "debug_NewFile_with
     (\<lambda>r. Inr \<lparr>elf_Sections = [\<lparr>elf_Name = [0x2E, 0x74], elf_Addr = 0x100, elf_Size = 16\<rparr>],
               elf_Symbols = Inr []\<rparr>)
     (\<lambda>r. Panic) [0x7F, 0x45, 0x4C, 0x46]
   = Returned
       (Some \<lparr>FileType = FileTypeELF,
               dbg_Sections = [elfSection \<lparr>elf_Name = [0x2E, 0x74], elf_Addr = 0x100,
                                           elf_Size = 16\<rparr>],
               dbg_Symbols = [], closer = None\<rparr>, None) \<and>
   debug_Open (\<lambda>name. Inr [0x7F, 0x45, 0x4C, 0x46])
     (\<lambda>r. Inr \<lparr>elf_Sections = [\<lparr>elf_Name = [0x2E, 0x74], elf_Addr = 0x100, elf_Size = 16\<rparr>],
               elf_Symbols = Inr []\<rparr>)
     ''a.out''
   = Returned
       (Some \<lparr>FileType = FileTypeELF,
               dbg_Sections = [elfSection \<lparr>elf_Name = [0x2E, 0x74], elf_Addr = 0x100,
                                           elf_Size = 16\<rparr>],
               dbg_Symbols = [], closer = Some ''a.out''\<rparr>, None)"
proof
  show "debug_NewFile_with
     (\<lambda>r. Inr \<lparr>elf_Sections = [\<lparr>elf_Name = [0x2E, 0x74], elf_Addr = 0x100, elf_Size = 16\<rparr>],
               elf_Symbols = Inr []\<rparr>)
     (\<lambda>r. Panic) [0x7F, 0x45, 0x4C, 0x46]
   = Returned
       (Some \<lparr>FileType = FileTypeELF,
               dbg_Sections = [elfSection \<lparr>elf_Name = [0x2E, 0x74], elf_Addr = 0x100,
                                           elf_Size = 16\<rparr>],
               dbg_Symbols = [], closer = None\<rparr>, None)"
    using elf_first
      [of "\<lambda>r. Inr \<lparr>elf_Sections = [\<lparr>elf_Name = [0x2E, 0x74], elf_Addr = 0x100,
                                       elf_Size = 16\<rparr>], elf_Symbols = Inr []\<rparr>"
          "[0x7F, 0x45, 0x4C, 0x46]"
          "\<lparr>elf_Sections = [\<lparr>elf_Name = [0x2E, 0x74], elf_Addr = 0x100, elf_Size = 16\<rparr>],
            elf_Symbols = Inr []\<rparr>",
       THEN conjunct1, rule_format, of "\<lambda>r. Panic" NewFile]
    by (simp add: debug_NewFile_with_def Let_def new_debug_File_def copy_elf_symbols_def)
  from elf_first
      [of "\<lambda>r. Inr \<lparr>elf_Sections = [\<lparr>elf_Name = [0x2E, 0x74], elf_Addr = 0x100,
                                       elf_Size = 16\<rparr>], elf_Symbols = Inr []\<rparr>"
          "[0x7F, 0x45, 0x4C, 0x46]"
          "\<lparr>elf_Sections = [\<lparr>elf_Name = [0x2E, 0x74], elf_Addr = 0x100, elf_Size = 16\<rparr>],
            elf_Symbols = Inr []\<rparr>" "\<lambda>name. Inr [0x7F, 0x45, 0x4C, 0x46]",
       THEN conjunct2, THEN conjunct1, rule_format, of "[]", THEN conjunct2, rule_format,
       of "''a.out''"]
  obtain f where "debug_Open (\<lambda>name. Inr [0x7F, 0x45, 0x4C, 0x46])
     (\<lambda>r. Inr \<lparr>elf_Sections = [\<lparr>elf_Name = [0x2E, 0x74], elf_Addr = 0x100, elf_Size = 16\<rparr>],
               elf_Symbols = Inr []\<rparr>)
     ''a.out'' = Returned (Some f, None)"
    by auto
  then show "debug_Open (\<lambda>name. Inr [0x7F, 0x45, 0x4C, 0x46])
     (\<lambda>r. Inr \<lparr>elf_Sections = [\<lparr>elf_Name = [0x2E, 0x74], elf_Addr = 0x100, elf_Size = 16\<rparr>],
               elf_Symbols = Inr []\<rparr>)
     ''a.out''
   = Returned
       (Some \<lparr>FileType = FileTypeELF,
               dbg_Sections = [elfSection \<lparr>elf_Name = [0x2E, 0x74], elf_Addr = 0x100,
                                           elf_Size = 16\<rparr>],
               dbg_Symbols = [], closer = Some ''a.out''\<rparr>, None)"
    by (simp add: debug_Open_def debug_NewFile_def debug_NewFile_with_def Let_def
        new_debug_File_def copy_elf_symbols_def)
qed

text \<open>
  Claim C7. When the ELF decoder fails with an error of message \<open>e1\<close> and
  \<^verbatim>\<open>coff.NewFile\<close> returns the error \<open>e2\<close>, \<^verbatim>\<open>debug.NewFile\<close> returns the nil file and
  an \<^verbatim>\<open>ErrorSlice\<close> of exactly two errors, the ELF failure first and the COFF failure
  second, each carrying the message of the underlying error behind the prefix
  \<open>debug/elf:\<close> or \<open>debug/coff:\<close>; \<^verbatim>\<open>Errors\<close> gives that list back.
\<close>

theorem both_fail_composite_error:
  assumes "elf_NewFile r = Inl e1" and "NewFile r = Returned (cf, Some e2)"
  shows "debug_NewFile elf_NewFile r =
           Returned (None, Some (ErrorSlice [ErrorString (''debug/elf: '' @ e1),
                                             ErrorString (''debug/coff: '' @ coff_Error e2)])) \<and>
         Errors (ErrorSlice [ErrorString (''debug/elf: '' @ e1),
                             ErrorString (''debug/coff: '' @ coff_Error e2)])
           = [ErrorString (''debug/elf: '' @ e1),
              ErrorString (''debug/coff: '' @ coff_Error e2)]"
  using assms
  by (simp add: debug_NewFile_with_def debug_NewFile_def Let_def Errors_def
      split: option.splits)

theorem both_fail_composite_error_witness:
  "debug_NewFile (\<lambda>r. Inl ''bad magic number'') [0xC2, 0, 0] =
     Returned (None, Some (ErrorSlice [ErrorString ''debug/elf: bad magic number'',
                                       ErrorString ''debug/coff: unexpected EOF'']))"
proof -
  have "NewFile [0xC2, 0, 0] = Returned (Some new_File, Some ErrUnexpectedEOF)"
    by (simp add: eval_NewFile)
  from both_fail_composite_error [of "\<lambda>r. Inl ''bad magic number''" "[0xC2, 0, 0]", OF _ this]
  show ?thesis by simp
qed

text \<open>
  Claim C9. When the ELF decoder fails and \<^verbatim>\<open>coff.NewFile\<close> succeeds with the file
  \<open>cf\<close>, the unified file has type COFF and one symbol for each COFF symbol, in the same
  order, with the same name, the same value (widened to 64 bits), and as size the
  \<^verbatim>\<open>Size\<close> of the auxiliary entry when there is one and zero when there is none.
\<close>

theorem coff_symbol_sizes:
  assumes "elf_NewFile r = Inl e1" and "NewFile r = Returned (Some cf, None)"
  shows "\<exists>f. debug_NewFile elf_NewFile r = Returned (Some f, None) \<and>
           FileType f = FileTypeCOFF \<and>
           length (dbg_Symbols f) = length (symbols cf) \<and>
           (\<forall>i < length (symbols cf).
              dbg_Name (dbg_Symbols f ! i) = sym_Name (symbols cf ! i) \<and>
              unat (dbg_Value (dbg_Symbols f ! i)) = unat (Value (symbols cf ! i)) \<and>
              unat (dbg_Size (dbg_Symbols f ! i)) =
                (case AuxiliaryEntry (symbols cf ! i) of
                   None \<Rightarrow> 0
                 | Some aux \<Rightarrow> unat (aux_Size aux)))"
  using assms copy_coff_symbols_nth [of "symbols cf"]
  by (auto simp add: debug_NewFile_with_def debug_NewFile_def Let_def Symbols_def
      unat_ucast_32_64 split: option.splits)

text \<open>Two symbols, the first with an auxiliary entry of size 4, the second without.\<close>

theorem coff_symbol_sizes_witness:
  "debug_NewFile (\<lambda>r. Inl ''bad magic number'')
     ([0xC2, 0, 0, 0, 0, 0, 0, 0, 22, 0, 0, 0, 3, 0, 0, 0, 0, 0, 0, 0, 0x97, 0] @
      [0x61, 0, 0, 0, 0, 0, 0, 0, 1, 0, 0, 0, 1, 0, 0, 0, 2, 1] @
      [4, 0, 0, 0, 0, 0, 0, 0, 0, 0, 0, 0, 0, 0, 0, 0, 0, 0] @
      [0x62, 0, 0, 0, 0, 0, 0, 0, 2, 0, 0, 0, 1, 0, 0, 0, 2, 0])
   = Returned
       (Some \<lparr>FileType = FileTypeCOFF, dbg_Sections = [],
               dbg_Symbols = [\<lparr>dbg_Name = [0x61], dbg_Value = 1, dbg_Size = 4\<rparr>,
                              \<lparr>dbg_Name = [0x62], dbg_Value = 2, dbg_Size = 0\<rparr>],
               closer = None\<rparr>, None)"
proof -
  let ?r = "[0xC2, 0, 0, 0, 0, 0, 0, 0, 22, 0, 0, 0, 3, 0, 0, 0, 0, 0, 0, 0, 0x97, 0] @
      [0x61, 0, 0, 0, 0, 0, 0, 0, 1, 0, 0, 0, 1, 0, 0, 0, 2, 1] @
      [4, 0, 0, 0, 0, 0, 0, 0, 0, 0, 0, 0, 0, 0, 0, 0, 0, 0] @
      [0x62, 0, 0, 0, 0, 0, 0, 0, 2, 0, 0, 0, 1, 0, 0, 0, 2, 0 :: byte]"
  from coff_symbol_sizes [of "\<lambda>r. Inl ''bad magic number''" ?r, OF _ three_slots_two_symbols]
  obtain f where "debug_NewFile (\<lambda>r. Inl ''bad magic number'') ?r = Returned (Some f, None)"
    by auto
  then show ?thesis
    using three_slots_two_symbols
    by (simp add: debug_NewFile_def debug_NewFile_with_def Let_def
        Symbols_def copy_coff_symbols_def new_debug_File_def new_debug_Symbol_def
        upt_rec_numeral)
qed

end
